theory Spec2Isabelle
  imports Complex_Main "HOL-Library.Word" "HOL-Library.Signed_Division"
begin

section \<open>Screen recorder: capture, encode and mux loop (FFmpegCapture.cpp)\<close>

text \<open>
  The program drives two external collaborators: the Windows display interface (GDI,
  cursor, keyboard, screen metrics) and the FFmpeg libraries. Neither is part of the
  source; both are represented by an \<open>environment\<close> record that answers every query the
  program makes of them. Every library call with an effect is logged, in program order,
  in the \<open>trace\<close> of the program state, so that properties of a run are properties of
  its trace.
\<close>

subsection \<open>Constants (lines 11-13)\<close>

text \<open>C++ \<open>int\<close> division truncates towards zero: \<open>sdiv\<close>.\<close>

definition FPS :: int where
  "FPS = 30"

definition FRAME_DELAY :: int where
  "FRAME_DELAY = 1000 sdiv FPS"

definition REGION_BORDER :: int where
  "REGION_BORDER = 8"

subsection \<open>Library data\<close>

text \<open>An \<open>AVRational\<close> is a pair (numerator, denominator).\<close>

type_synonym AVRational = "int \<times> int"

datatype pixel_format = AV_PIX_FMT_YUV420P | AV_PIX_FMT_BGRA

record AVPacket =
  pkt_pts :: int
  pkt_dts :: int
  pkt_duration :: int
  pkt_stream_index :: int
  pkt_data :: "8 word list"

record AVFrame =
  frame_format :: pixel_format
  frame_width :: "32 word"
  frame_height :: "32 word"
  frame_pts :: "64 word"
  frame_data :: "8 word list"

record AVCodecContext =
  cc_width :: "32 word"
  cc_height :: "32 word"
  cc_time_base :: AVRational
  cc_pix_fmt :: pixel_format
  cc_bit_rate :: int
  cc_opened :: bool

record AVStream =
  st_index :: int
  st_time_base :: AVRational

record AVFormatContext =
  pb_open :: bool

record SwsContext =
  sws_width :: "32 word"
  sws_height :: "32 word"

text \<open>
  A pointer member is null, points to an object, or is indeterminate: the constructor
  (line 17) initialises \<open>sws_ctx\<close>, \<open>codec_ctx\<close> and \<open>fmt_ctx\<close> only, so \<open>frame\<close> and
  \<open>stream\<close> hold whatever the stack held until \<open>Initialize\<close> assigns them. \<open>Wild\<close> is an
  indeterminate value that compares unequal to null.
\<close>

datatype 'a ptr = Nullptr | Wild | Ptr 'a

text \<open>
  The ways a run leaves defined behaviour or is terminated: a member access through a
  pointer that points to no object, a library call that frees an indeterminate pointer,
  an overflow of signed integer arithmetic, a \<open>std::vector\<close> asked for more than its
  maximal size (an exception nobody catches), and a pixel read past the end of the
  capture buffer.
\<close>

datatype error = NullDereference | WildPointer | SignedOverflow | LengthError | BufferOverrun

subsection \<open>Events\<close>

datatype resource =
    ScreenDC | MemDC | Bitmap | Brush | IconColorBitmap | IconMaskBitmap | Packet
  | FormatContext | CodecContext | ScalerContext | EncoderFrame | OutputFile

datatype gdi_op = SelectObject | BitBlt | FrameRect | DrawIconEx

text \<open>
  \<open>Acquire\<close> and \<open>Release\<close> log the creation and destruction of a resource;
  \<open>GetDIBits k\<close> a pixel read of \<open>k\<close> bytes into the capture buffer; \<open>SendFrame\<close> a call
  of \<open>avcodec_send_frame\<close> with the frame's timestamp (\<open>None\<close> for the null frame);
  \<open>WritePacket\<close> a call of \<open>av_interleaved_write_frame\<close>; \<open>SleepUntil d now\<close> a call of
  \<open>sleep_until\<close> with deadline \<open>d\<close> when the clock reads \<open>now\<close>.
\<close>

datatype event =
    Acquire resource
  | Release resource
  | DrawOp gdi_op
  | GetDIBits nat
  | SwsScale
  | SendFrame "64 word option"
  | WriteHeader
  | WritePacket AVPacket
  | WriteTrailer
  | SleepUntil int int

subsection \<open>The environment\<close>

text \<open>
  What the operating system and the libraries answer. Iterations of the capture loop
  are numbered from 0, and so are the polls of the escape key. Times are in
  milliseconds of the steady clock, as unbounded integers. \<open>encoder_output sent f\<close> is
  the list of packets that become ready when \<open>f\<close> (\<open>None\<close>: the null frame) is
  submitted to an encoder that has accepted the frames \<open>sent\<close> before: zero or more
  packets per submitted frame. \<open>frame_member_garbage\<close> says whether the uninitialised
  member \<open>frame\<close> happens to hold a non-null value. The allocations whose result the
  source does not test (\<open>avcodec_alloc_context3\<close>, \<open>sws_getContext\<close>, \<open>av_frame_alloc\<close>,
  \<open>av_frame_get_buffer\<close>, \<open>av_packet_alloc\<close>) are taken to succeed.
\<close>

record environment =
  screen_cx :: "32 word"
  screen_cy :: "32 word"
  alloc_output_context_ok :: bool
  find_encoder_ok :: bool
  new_stream_ok :: bool
  new_stream_index :: int
  codec_open_ok :: bool
  avio_open_ok :: bool
  muxer_time_base :: AVRational
  frame_member_garbage :: bool
  escape_down :: "nat \<Rightarrow> bool"
  clock_start :: int
  work_ms :: "nat \<Rightarrow> nat"
  cursor_showing :: "nat \<Rightarrow> bool"
  icon_info_ok :: "nat \<Rightarrow> bool"
  screen_pixels :: "nat \<Rightarrow> nat \<Rightarrow> 8 word"
  sws_convert :: "8 word list \<Rightarrow> 8 word list"
  encoder_output :: "AVFrame list \<Rightarrow> AVFrame option \<Rightarrow> AVPacket list"
  packet_rescale_ts :: "AVPacket \<Rightarrow> AVRational \<Rightarrow> AVRational \<Rightarrow> AVPacket"

subsection \<open>Program state\<close>

text \<open>
  The members of \<open>ScreenRecorder\<close> (lines 167-174), followed by the state of the world
  the program acts on: the encoder (frames accepted, packets ready to be received),
  the steady clock and the trace of calls.
\<close>

record world =
  width :: "32 word"
  height :: "32 word"
  sws_ctx :: "SwsContext ptr"
  codec_ctx :: "AVCodecContext ptr"
  fmt_ctx :: "AVFormatContext ptr"
  stream :: "AVStream ptr"
  frame :: "AVFrame ptr"
  captureBuffer :: "8 word list"
  pts_counter :: "64 word"
  enc_sent :: "AVFrame list"
  enc_ready :: "AVPacket list"
  clock :: int
  trace :: "event list"

definition emit :: "event list \<Rightarrow> world \<Rightarrow> world" where
  "emit es s = s\<lparr>trace := trace s @ es\<rparr>"

definition deref :: "'a ptr \<Rightarrow> error + 'a" where
  "deref p = (case p of Ptr x \<Rightarrow> Inr x | _ \<Rightarrow> Inl NullDereference)"

subsection \<open>Constructor (line 17)\<close>

definition ScreenRecorder :: "environment \<Rightarrow> world" where
  "ScreenRecorder env =
     \<lparr> width = 0, height = 0,
       sws_ctx = Nullptr, codec_ctx = Nullptr, fmt_ctx = Nullptr,
       stream = Wild,
       frame = (if frame_member_garbage env then Wild else Nullptr),
       captureBuffer = [], pts_counter = 0,
       enc_sent = [], enc_ready = [], clock = clock_start env, trace = [] \<rparr>"

subsection \<open>Initialize (lines 19-62)\<close>

text \<open>\<open>AV_NOPTS_VALUE\<close>, the timestamp of a freshly allocated frame.\<close>

definition AV_NOPTS_VALUE :: "64 word" where
  "AV_NOPTS_VALUE = 0x8000000000000000"

text \<open>
  Four results are tested: the output context, the encoder, the stream and
  \<open>avio_open\<close>. The result of \<open>avcodec_open2\<close> is dropped (line 43): it only decides
  whether the codec context is open. The screen metrics are stored untested.
\<close>

definition Initialize :: "environment \<Rightarrow> world \<Rightarrow> bool \<times> world" where
  "Initialize env s0 =
     (let s1 = s0\<lparr>width := screen_cx env, height := screen_cy env\<rparr>;
          s2 = (if alloc_output_context_ok env
                then emit [Acquire FormatContext] (s1\<lparr>fmt_ctx := Ptr \<lparr>pb_open = False\<rparr>\<rparr>)
                else s1\<lparr>fmt_ctx := Nullptr\<rparr>)
      in if fmt_ctx s2 = Nullptr then (False, s2)
         else if \<not> find_encoder_ok env then (False, s2)
         else
           let s3 = s2\<lparr>stream := (if new_stream_ok env
                        then Ptr \<lparr>st_index = new_stream_index env, st_time_base = (1, 90000)\<rparr>
                        else Nullptr)\<rparr>
           in if stream s3 = Nullptr then (False, s3)
              else
                let cc = \<lparr>cc_width = width s3, cc_height = height s3,
                          cc_time_base = (1, FPS), cc_pix_fmt = AV_PIX_FMT_YUV420P,
                          cc_bit_rate = 4000000, cc_opened = codec_open_ok env\<rparr>;
                    s4 = emit [Acquire CodecContext] (s3\<lparr>codec_ctx := Ptr cc\<rparr>);
                    s5 = emit [Acquire ScalerContext]
                           (s4\<lparr>sws_ctx := Ptr \<lparr>sws_width = width s4, sws_height = height s4\<rparr>\<rparr>);
                    s6 = emit [Acquire EncoderFrame]
                           (s5\<lparr>frame := Ptr \<lparr>frame_format = cc_pix_fmt cc,
                                frame_width = cc_width cc, frame_height = cc_height cc,
                                frame_pts = AV_NOPTS_VALUE, frame_data = []\<rparr>\<rparr>)
                in if \<not> avio_open_ok env then (False, s6)
                   else
                     let s7 = emit [Acquire OutputFile] (s6\<lparr>fmt_ctx := Ptr \<lparr>pb_open = True\<rparr>\<rparr>);
                         s8 = emit [WriteHeader]
                                (s7\<lparr>stream := Ptr \<lparr>st_index = new_stream_index env,
                                                    st_time_base = muxer_time_base env\<rparr>\<rparr>)
                     in (True, s8))"

subsection \<open>CaptureFrame and DrawCursor (lines 94-143)\<close>

definition DrawCursor :: "environment \<Rightarrow> nat \<Rightarrow> world \<Rightarrow> world" where
  "DrawCursor env n s =
     (if cursor_showing env n then
        (if icon_info_ok env n
         then emit [Acquire IconColorBitmap, Acquire IconMaskBitmap, DrawOp DrawIconEx,
                    Release IconColorBitmap, Release IconMaskBitmap] s
         else s)
      else s)"

text \<open>
  Line 119 compares \<open>captureBuffer.size()\<close>, a \<open>size_t\<close>, with the \<open>int\<close> product
  \<open>width * height * 4\<close>. Each multiplication is a signed 32-bit one, undefined when its
  result does not fit; the product is then converted to the 64-bit unsigned type, that
  is, taken modulo \<open>2 ^ 64\<close>, so that a negative product becomes a size no vector can
  have. Sizes are integers here.
\<close>

definition int_mul :: "32 word \<Rightarrow> 32 word \<Rightarrow> error + 32 word" where
  "int_mul a b =
     (if - (2 ^ 31) \<le> sint a * sint b \<and> sint a * sint b < 2 ^ 31 then Inr (a * b)
      else Inl SignedOverflow)"

definition size_t_of_int :: "32 word \<Rightarrow> int" where
  "size_t_of_int x = sint x mod 2 ^ 64"

definition vector_max_size :: int where
  "vector_max_size = 2 ^ 63 - 1"

definition resize :: "int \<Rightarrow> 8 word list \<Rightarrow> error + 8 word list" where
  "resize n xs =
     (if vector_max_size < n then Inl LengthError
      else if nat n \<le> length xs then Inr (take (nat n) xs)
      else Inr (xs @ replicate (nat n - length xs) 0))"

text \<open>
  The bytes \<open>GetDIBits\<close> stores for a 32-bit top-down bitmap: \<open>height\<close> scan lines
  of \<open>width * 4\<close> bytes, nothing when a dimension is not positive.
\<close>

definition dib_bytes :: "32 word \<Rightarrow> 32 word \<Rightarrow> nat" where
  "dib_bytes w h = (if 0 < sint w \<and> 0 < sint h then nat (sint w) * 4 * nat (sint h) else 0)"

definition CaptureFrame :: "environment \<Rightarrow> nat \<Rightarrow> world \<Rightarrow> error + world" where
  "CaptureFrame env n s =
     (let s1 = emit [Acquire ScreenDC, Acquire MemDC, Acquire Bitmap,
                     DrawOp SelectObject, DrawOp BitBlt,
                     Acquire Brush, DrawOp FrameRect, Release Brush] s;
          s2 = DrawCursor env n s1
      in case int_mul (width s2) (height s2) of
           Inl e \<Rightarrow> Inl e
         | Inr wh \<Rightarrow>
            (case int_mul wh 4 of
               Inl e \<Rightarrow> Inl e
             | Inr bytes \<Rightarrow>
                (case (if int (length (captureBuffer s2)) < size_t_of_int bytes
                       then resize (size_t_of_int bytes) (captureBuffer s2)
                       else Inr (captureBuffer s2)) of
                   Inl e \<Rightarrow> Inl e
                 | Inr buf \<Rightarrow>
                     let k = dib_bytes (width s2) (height s2)
                     in if length buf < k then Inl BufferOverrun
                        else
                          let s4 = emit [GetDIBits k]
                                     (s2\<lparr>captureBuffer :=
                                           map (screen_pixels env n) [0..<k] @ drop k buf\<rparr>)
                          in Inr (emit [Release Bitmap, Release MemDC, Release ScreenDC] s4))))"

subsection \<open>The encoder interface\<close>

text \<open>
  \<open>avcodec_send_frame\<close>: a context that was never opened rejects the frame; an open one
  accepts it and makes the packets of \<open>encoder_output\<close> ready.
  \<open>avcodec_receive_packet\<close> hands out the next ready packet (return value 0), or
  nothing (a non-zero return value).
\<close>

definition avcodec_send_frame :: "environment \<Rightarrow> AVFrame option \<Rightarrow> world \<Rightarrow> error + world" where
  "avcodec_send_frame env f s =
     (case deref (codec_ctx s) of
        Inl e \<Rightarrow> Inl e
      | Inr cc \<Rightarrow>
          let s1 = emit [SendFrame (map_option frame_pts f)] s
          in if cc_opened cc
             then Inr (s1\<lparr>enc_ready := enc_ready s1 @ encoder_output env (enc_sent s1) f,
                          enc_sent := enc_sent s1 @ (case f of None \<Rightarrow> [] | Some x \<Rightarrow> [x])\<rparr>)
             else Inr s1)"

definition avcodec_receive_packet :: "world \<Rightarrow> (AVPacket \<times> world) option" where
  "avcodec_receive_packet s =
     (case enc_ready s of [] \<Rightarrow> None | p # ps \<Rightarrow> Some (p, s\<lparr>enc_ready := ps\<rparr>))"

subsection \<open>EncodeFrame (lines 145-165)\<close>

text \<open>
  Lines 159-161: rescale, tag, append. The drain loop of lines 158-163 ends because
  every receive takes one packet off the finite list of ready packets.
\<close>

definition mux_packet :: "environment \<Rightarrow> AVPacket \<Rightarrow> world \<Rightarrow> error + world" where
  "mux_packet env pkt s =
     (case deref (codec_ctx s) of
        Inl e \<Rightarrow> Inl e
      | Inr cc \<Rightarrow>
         (case deref (stream s) of
            Inl e \<Rightarrow> Inl e
          | Inr st \<Rightarrow>
              let pkt1 = packet_rescale_ts env pkt (cc_time_base cc) (st_time_base st);
                  pkt2 = pkt1\<lparr>pkt_stream_index := st_index st\<rparr>
              in Inr (emit [WritePacket pkt2] s)))"

function EncodeFrame_drain :: "environment \<Rightarrow> world \<Rightarrow> error + world" where
  "EncodeFrame_drain env s =
     (case avcodec_receive_packet s of
        None \<Rightarrow> Inr s
      | Some (pkt, s1) \<Rightarrow>
          (case mux_packet env pkt s1 of
             Inl e \<Rightarrow> Inl e
           | Inr s2 \<Rightarrow> EncodeFrame_drain env s2))"
  by pat_completeness auto
termination
  by (relation "measure (\<lambda>(env, s). length (enc_ready s))")
     (auto simp: avcodec_receive_packet_def mux_packet_def emit_def deref_def
           split: list.splits sum.splits ptr.splits)

declare EncodeFrame_drain.simps [simp del]

text \<open>
  Lines 147-156: convert the capture buffer into the encoder frame, stamp the frame
  with the counter, advance the counter, submit the frame. The counter is an
  \<open>int64_t\<close>: incrementing its largest value is undefined.
\<close>

definition INT64_MAX :: "64 word" where
  "INT64_MAX = 0x7FFFFFFFFFFFFFFF"

definition EncodeFrame_submit :: "environment \<Rightarrow> world \<Rightarrow> error + world" where
  "EncodeFrame_submit env s =
     (case deref (sws_ctx s) of
        Inl e \<Rightarrow> Inl e
      | Inr sws \<Rightarrow>
         (case deref (frame s) of
            Inl e \<Rightarrow> Inl e
          | Inr fr \<Rightarrow>
              let fr1 = fr\<lparr>frame_data := sws_convert env (captureBuffer s)\<rparr>;
                  s1 = emit [SwsScale] (s\<lparr>frame := Ptr fr1\<rparr>)
              in if pts_counter s1 = INT64_MAX then Inl SignedOverflow
                 else
                   let fr2 = fr1\<lparr>frame_pts := pts_counter s1\<rparr>;
                       s2 = s1\<lparr>frame := Ptr fr2, pts_counter := pts_counter s1 + 1\<rparr>
                   in avcodec_send_frame env (Some fr2) s2))"

text \<open>Lines 157-164: allocate the packet, drain, free the packet.\<close>

definition EncodeFrame :: "environment \<Rightarrow> world \<Rightarrow> error + world" where
  "EncodeFrame env s =
     (case EncodeFrame_submit env s of
        Inl e \<Rightarrow> Inl e
      | Inr s3 \<Rightarrow>
         (case EncodeFrame_drain env (emit [Acquire Packet] s3) of
            Inl e \<Rightarrow> Inl e
          | Inr s4 \<Rightarrow> Inr (emit [Release Packet] s4)))"

subsection \<open>Record (lines 64-84)\<close>

text \<open>
  One pass through the loop body (lines 67-71). The capture and the encode of
  iteration \<open>n\<close> take \<open>work_ms env n\<close> milliseconds of wall-clock time; \<open>sleep_until\<close>
  returns at once when the deadline has passed.
\<close>

definition Record_body :: "environment \<Rightarrow> nat \<Rightarrow> int \<Rightarrow> world \<Rightarrow> error + int \<times> world" where
  "Record_body env n next_frame s =
     (case CaptureFrame env n s of
        Inl e \<Rightarrow> Inl e
      | Inr s1 \<Rightarrow>
         (case EncodeFrame env s1 of
            Inl e \<Rightarrow> Inl e
          | Inr s2 \<Rightarrow>
              let s3 = s2\<lparr>clock := clock s2 + int (work_ms env n)\<rparr>;
                  next_frame1 = next_frame + FRAME_DELAY;
                  s4 = emit [SleepUntil next_frame1 (clock s3)] s3
              in Inr (next_frame1, s4\<lparr>clock := max (clock s4) next_frame1\<rparr>)))"

text \<open>
  The loop of line 66 runs until the escape key is seen down, which may never happen:
  the result is \<open>None\<close> when the loop does not end.
\<close>

partial_function (option) Record_loop ::
  "environment \<Rightarrow> nat \<Rightarrow> int \<Rightarrow> world \<Rightarrow> (error + world) option" where
  "Record_loop env n next_frame s =
     (if escape_down env n then Some (Inr s)
      else (case Record_body env n next_frame s of
              Inl e \<Rightarrow> Some (Inl e)
            | Inr (next_frame1, s1) \<Rightarrow> Record_loop env (Suc n) next_frame1 s1))"

declare Record_loop.simps [code]

text \<open>The flush loop of lines 77-80 writes each packet as it was received.\<close>

function Record_drain :: "world \<Rightarrow> world" where
  "Record_drain s =
     (case avcodec_receive_packet s of
        None \<Rightarrow> s
      | Some (pkt, s1) \<Rightarrow> Record_drain (emit [WritePacket pkt] s1))"
  by pat_completeness auto
termination
  by (relation "measure (\<lambda>s. length (enc_ready s))")
     (auto simp: avcodec_receive_packet_def emit_def split: list.splits)

declare Record_drain.simps [simp del]

definition Record_finish :: "environment \<Rightarrow> world \<Rightarrow> error + world" where
  "Record_finish env s =
     (case avcodec_send_frame env None (emit [Acquire Packet] s) of
        Inl e \<Rightarrow> Inl e
      | Inr s1 \<Rightarrow> Inr (emit [Release Packet, WriteTrailer] (Record_drain s1)))"

definition Record :: "environment \<Rightarrow> world \<Rightarrow> (error + world) option" where
  "Record env s =
     (case Record_loop env 0 (clock s) s of
        None \<Rightarrow> None
      | Some (Inl e) \<Rightarrow> Some (Inl e)
      | Some (Inr s1) \<Rightarrow> Some (Record_finish env s1))"

subsection \<open>Destructor (lines 86-91) and main (lines 177-184)\<close>

text \<open>
  Each line of the destructor tests a pointer and frees what it points to. Freeing an
  indeterminate pointer is an error; \<open>avcodec_free_context\<close> and \<open>av_frame_free\<close> null
  the member they are given.
\<close>

definition release :: "'a ptr \<Rightarrow> resource \<Rightarrow> world \<Rightarrow> error + world" where
  "release p r s =
     (case p of
        Nullptr \<Rightarrow> Inr s
      | Wild \<Rightarrow> Inl WildPointer
      | Ptr x \<Rightarrow> Inr (emit [Release r] s))"

definition destructor :: "world \<Rightarrow> error + world" where
  "destructor s =
     (case release (codec_ctx s) CodecContext s of
        Inl e \<Rightarrow> Inl e
      | Inr s1 \<Rightarrow>
         (case release (fmt_ctx s1) FormatContext (s1\<lparr>codec_ctx := Nullptr\<rparr>) of
            Inl e \<Rightarrow> Inl e
          | Inr s2 \<Rightarrow>
             (case release (sws_ctx s2) ScalerContext s2 of
                Inl e \<Rightarrow> Inl e
              | Inr s3 \<Rightarrow>
                 (case release (frame s3) EncoderFrame s3 of
                    Inl e \<Rightarrow> Inl e
                  | Inr s4 \<Rightarrow> Inr (s4\<lparr>frame := Nullptr\<rparr>)))))"

text \<open>
  The result of \<open>main\<close>: the exit code and the final state when \<open>main\<close> returns and the
  recorder is destroyed, an error when the run ends otherwise, \<open>None\<close> when the capture
  loop never ends.
\<close>

definition exit_with :: "int \<Rightarrow> world \<Rightarrow> (error + int \<times> world) option" where
  "exit_with code s =
     (case destructor s of Inl e \<Rightarrow> Some (Inl e) | Inr s' \<Rightarrow> Some (Inr (code, s')))"

definition main :: "environment \<Rightarrow> (error + int \<times> world) option" where
  "main env =
     (case Initialize env (ScreenRecorder env) of
        (True, s1) \<Rightarrow>
          (case Record env s1 of
             None \<Rightarrow> None
           | Some (Inl e) \<Rightarrow> Some (Inl e)
           | Some (Inr s2) \<Rightarrow> exit_with 0 s2)
      | (False, s1) \<Rightarrow> exit_with 0 s1)"

subsection \<open>Reading a trace\<close>

text \<open>
  The timestamps of the frames submitted to the encoder, the number of pixel reads
  (captured frames), the packets handed to the muxer and the pacing deadlines, each in
  program order.
\<close>

fun submitted_pts :: "event list \<Rightarrow> 64 word list" where
  "submitted_pts [] = []"
| "submitted_pts (SendFrame (Some p) # tr) = p # submitted_pts tr"
| "submitted_pts (e # tr) = submitted_pts tr"

fun frames_captured :: "event list \<Rightarrow> nat" where
  "frames_captured [] = 0"
| "frames_captured (GetDIBits k # tr) = Suc (frames_captured tr)"
| "frames_captured (e # tr) = frames_captured tr"

fun written_packets :: "event list \<Rightarrow> AVPacket list" where
  "written_packets [] = []"
| "written_packets (WritePacket p # tr) = p # written_packets tr"
| "written_packets (e # tr) = written_packets tr"

fun deadlines :: "event list \<Rightarrow> int list" where
  "deadlines [] = []"
| "deadlines (SleepUntil d now # tr) = d # deadlines tr"
| "deadlines (e # tr) = deadlines tr"

text \<open>The loop body run \<open>k\<close> times in a row, from iteration \<open>n\<close> on.\<close>

fun iterations :: "environment \<Rightarrow> nat \<Rightarrow> nat \<Rightarrow> int \<Rightarrow> world \<Rightarrow> error + int \<times> world" where
  "iterations env n 0 next_frame s = Inr (next_frame, s)"
| "iterations env n (Suc k) next_frame s =
     (case Record_body env n next_frame s of
        Inl e \<Rightarrow> Inl e
      | Inr (next_frame1, s1) \<Rightarrow> iterations env (Suc n) k next_frame1 s1)"

text \<open>What lines 159-160 make of a received packet: rescaled, then tagged.\<close>

definition muxed :: "environment \<Rightarrow> AVCodecContext \<Rightarrow> AVStream \<Rightarrow> AVPacket \<Rightarrow> AVPacket" where
  "muxed env cc st pkt =
     (packet_rescale_ts env pkt (cc_time_base cc) (st_time_base st))\<lparr>pkt_stream_index := st_index st\<rparr>"

text \<open>
  The escape key is first seen down at poll \<open>n + k\<close>, counting from poll \<open>n\<close>.
\<close>

definition first_escape :: "environment \<Rightarrow> nat \<Rightarrow> nat \<Rightarrow> bool" where
  "first_escape env n k = (escape_down env (n + k) \<and> (\<forall>j<k. \<not> escape_down env (n + j)))"

text \<open>
  The events of one pass through the loop body, in program order: those of
  \<open>DrawCursor\<close>, of \<open>CaptureFrame\<close> reading \<open>k\<close> bytes, and of the whole body when the
  drain loop writes the packets \<open>ps\<close>.
\<close>

definition cursor_events :: "environment \<Rightarrow> nat \<Rightarrow> event list" where
  "cursor_events env n =
     (if cursor_showing env n \<and> icon_info_ok env n
      then [Acquire IconColorBitmap, Acquire IconMaskBitmap, DrawOp DrawIconEx,
            Release IconColorBitmap, Release IconMaskBitmap]
      else [])"

definition capture_events :: "environment \<Rightarrow> nat \<Rightarrow> nat \<Rightarrow> event list" where
  "capture_events env n k =
     [Acquire ScreenDC, Acquire MemDC, Acquire Bitmap, DrawOp SelectObject, DrawOp BitBlt,
      Acquire Brush, DrawOp FrameRect, Release Brush] @ cursor_events env n @
     [GetDIBits k, Release Bitmap, Release MemDC, Release ScreenDC]"

definition body_events :: "environment \<Rightarrow> nat \<Rightarrow> int \<Rightarrow> world \<Rightarrow> AVPacket list \<Rightarrow> event list" where
  "body_events env n nf s ps =
     capture_events env n (dib_bytes (width s) (height s)) @
     [SwsScale, SendFrame (Some (pts_counter s)), Acquire Packet] @ map WritePacket ps @
     [Release Packet, SleepUntil (nf + FRAME_DELAY) (clock s + int (work_ms env n))]"

text \<open>The members that only \<open>Initialize\<close> and the destructor assign.\<close>

definition unchanged_setup :: "world \<Rightarrow> world \<Rightarrow> bool" where
  "unchanged_setup s s' \<longleftrightarrow>
     width s' = width s \<and> height s' = height s \<and> sws_ctx s' = sws_ctx s \<and>
     codec_ctx s' = codec_ctx s \<and> fmt_ctx s' = fmt_ctx s \<and> stream s' = stream s"

definition destructor_events :: "world \<Rightarrow> event list" where
  "destructor_events s =
     (if codec_ctx s \<noteq> Nullptr then [Release CodecContext] else []) @
     (if fmt_ctx s \<noteq> Nullptr then [Release FormatContext] else []) @
     (if sws_ctx s \<noteq> Nullptr then [Release ScalerContext] else []) @
     (if frame s \<noteq> Nullptr then [Release EncoderFrame] else [])"

definition completed_run :: "environment \<Rightarrow> (int \<times> event list) option" where
  "completed_run env =
     (case main env of Some (Inr (c, s)) \<Rightarrow> Some (c, trace s) | _ \<Rightarrow> None)"

subsection \<open>A concrete environment\<close>

text \<open>
  A small environment on which the program can be run: a 2 by 1 pixel screen, a muxer
  time base of 1/15360 second, a rescaling that is exact for these time bases, and an
  encoder that works on pairs of pictures: it emits nothing for the 1st, 3rd, ...
  frame and two packets for the 2nd, 4th, ... frame, and on the null frame emits the
  packet of a picture left without its partner. The escape key is down from poll
  \<open>stop\<close> on, so \<open>stop\<close> frames are captured.
\<close>

definition demo_packet :: "AVFrame \<Rightarrow> AVPacket" where
  "demo_packet f =
     \<lparr>pkt_pts = sint (frame_pts f), pkt_dts = sint (frame_pts f), pkt_duration = 1,
      pkt_stream_index = 0, pkt_data = take 1 (frame_data f)\<rparr>"

definition demo_encoder :: "AVFrame list \<Rightarrow> AVFrame option \<Rightarrow> AVPacket list" where
  "demo_encoder sent f =
     (if even (length sent) then []
      else (case f of
              None \<Rightarrow> [demo_packet (last sent)]
            | Some x \<Rightarrow> [demo_packet (last sent), demo_packet x]))"

definition demo_rescale :: "AVPacket \<Rightarrow> AVRational \<Rightarrow> AVRational \<Rightarrow> AVPacket" where
  "demo_rescale p src dst =
     p\<lparr>pkt_pts := (pkt_pts p * fst src * snd dst) div (snd src * fst dst),
       pkt_dts := (pkt_dts p * fst src * snd dst) div (snd src * fst dst),
       pkt_duration := (pkt_duration p * fst src * snd dst) div (snd src * fst dst)\<rparr>"

definition demo_env :: "nat \<Rightarrow> environment" where
  "demo_env stop =
     \<lparr>screen_cx = 2, screen_cy = 1,
      alloc_output_context_ok = True, find_encoder_ok = True, new_stream_ok = True,
      new_stream_index = 0, codec_open_ok = True, avio_open_ok = True,
      muxer_time_base = (1, 15360), frame_member_garbage = True,
      escape_down = (\<lambda>n. stop \<le> n), clock_start = 1000,
      work_ms = (\<lambda>n. if n = 0 then 50 else 5),
      cursor_showing = (\<lambda>n. True), icon_info_ok = (\<lambda>n. True),
      screen_pixels = (\<lambda>n i. of_nat (n + i)),
      sws_convert = (\<lambda>xs. xs),
      encoder_output = demo_encoder,
      packet_rescale_ts = demo_rescale\<rparr>"

text \<open>
  The state of that run after \<open>k\<close> passes through the loop body, and the codec context
  and stream that \<open>Initialize\<close> sets up in it.
\<close>

definition demo_after :: "nat \<Rightarrow> world" where
  "demo_after k =
     snd (projr (iterations (demo_env k) 0 k 1000
                   (snd (Initialize (demo_env k) (ScreenRecorder (demo_env k))))))"

definition demo_codec :: AVCodecContext where
  "demo_codec = \<lparr>cc_width = 2, cc_height = 1, cc_time_base = (1, 30),
                  cc_pix_fmt = AV_PIX_FMT_YUV420P, cc_bit_rate = 4000000, cc_opened = True\<rparr>"

definition demo_stream :: AVStream where
  "demo_stream = \<lparr>st_index = 0, st_time_base = (1, 15360)\<rparr>"

definition created :: "event list \<Rightarrow> resource \<Rightarrow> nat" where
  "created tr r = count_list tr (Acquire r)"

definition released :: "event list \<Rightarrow> resource \<Rightarrow> nat" where
  "released tr r = count_list tr (Release r)"

definition lifecycle_once :: "event list \<Rightarrow> resource \<Rightarrow> bool" where
  "lifecycle_once tr r \<longleftrightarrow> created tr r = 1 \<and> released tr r = 1"

fun cursor_frames :: "environment \<Rightarrow> nat \<Rightarrow> nat \<Rightarrow> nat" where
  "cursor_frames env n 0 = 0"
| "cursor_frames env n (Suc k) =
     (if cursor_showing env n \<and> icon_info_ok env n then 1 else 0) + cursor_frames env (Suc n) k"

definition loop_uses :: "environment \<Rightarrow> nat \<Rightarrow> nat \<Rightarrow> resource \<Rightarrow> nat" where
  "loop_uses env n k r =
     (if r \<in> {ScreenDC, MemDC, Bitmap, Brush, Packet} then k
      else if r \<in> {IconColorBitmap, IconMaskBitmap} then cursor_frames env n k
      else 0)"

definition captured :: "environment \<Rightarrow> nat \<Rightarrow> world \<Rightarrow> 8 word list \<Rightarrow> world" where
  "captured env n s buf =
     s\<lparr>captureBuffer := map (screen_pixels env n) [0..<dib_bytes (width s) (height s)] @
                           drop (dib_bytes (width s) (height s)) buf,
       trace := trace s @ capture_events env n (dib_bytes (width s) (height s))\<rparr>"

text \<open>
  The shape of a completed recording's trace: the events of \<open>Initialize\<close>, those of one
  pass through the loop body (a capture of \<open>k\<close> bytes, a frame stamped \<open>p\<close>, the packets
  \<open>ps\<close> written, a sleep until \<open>d\<close> at time \<open>now\<close>), those of the flush of lines 75-83,
  and those of the destructor.
\<close>

definition iteration_events ::
  "environment \<Rightarrow> nat \<Rightarrow> nat \<Rightarrow> 64 word \<Rightarrow> AVPacket list \<Rightarrow> int \<Rightarrow> int \<Rightarrow> event list" where
  "iteration_events env n k p ps d now =
     capture_events env n k @ [SwsScale, SendFrame (Some p), Acquire Packet] @
     map WritePacket ps @ [Release Packet, SleepUntil d now]"

definition startup_events :: "event list" where
  "startup_events =
     [Acquire FormatContext, Acquire CodecContext, Acquire ScalerContext,
      Acquire EncoderFrame, Acquire OutputFile, WriteHeader]"

definition flush_events :: "AVPacket list \<Rightarrow> event list" where
  "flush_events ps =
     [Acquire Packet, SendFrame None] @ map WritePacket ps @ [Release Packet, WriteTrailer]"

definition exit_events :: "event list" where
  "exit_events =
     [Release CodecContext, Release FormatContext, Release ScalerContext, Release EncoderFrame]"

section \<open>Lemmas\<close>

subsection \<open>Reading a trace\<close>

lemma submitted_pts_append: "submitted_pts (a @ b) = submitted_pts a @ submitted_pts b"
  by (induction a rule: submitted_pts.induct) auto
lemma frames_captured_append: "frames_captured (a @ b) = frames_captured a + frames_captured b"
  by (induction a rule: frames_captured.induct) auto
lemma written_packets_append: "written_packets (a @ b) = written_packets a @ written_packets b"
  by (induction a rule: written_packets.induct) auto
lemma deadlines_append: "deadlines (a @ b) = deadlines a @ deadlines b"
  by (induction a rule: deadlines.induct) auto
lemma written_packets_map: "written_packets (map WritePacket ps) = ps"
  by (induction ps) auto
lemma submitted_pts_map: "submitted_pts (map WritePacket ps) = []"
  by (induction ps) auto
lemma frames_captured_map:  "frames_captured (map WritePacket ps) = 0"
  by (induction ps) auto
lemma deadlines_map:  "deadlines (map WritePacket ps) = []"
  by (induction ps) auto

subsection \<open>The capture loop and its unrolling\<close>

lemma Record_loop_escape: "escape_down env n \<Longrightarrow> Record_loop env n nf s = Some (Inr s)"
  by (subst Record_loop.simps) simp

lemma Record_loop_step: "\<not> escape_down env n \<Longrightarrow> Record_loop env n nf s =
   (case Record_body env n nf s of Inl e \<Rightarrow> Some (Inl e) | Inr (nf1, s1) \<Rightarrow> Record_loop env (Suc n) nf1 s1)"
  by (subst Record_loop.simps) simp

lemma first_escape_0: "escape_down env n \<Longrightarrow> first_escape env n 0"
  by (simp add: first_escape_def)

lemma first_escape_Suc:
  "\<not> escape_down env n \<Longrightarrow> first_escape env (Suc n) k \<Longrightarrow> first_escape env n (Suc k)"
  unfolding first_escape_def
proof (intro conjI allI impI)
  assume a: "\<not> escape_down env n" and b: "escape_down env (Suc n + k) \<and> (\<forall>j<k. \<not> escape_down env (Suc n + j))"
  show "escape_down env (n + Suc k)" using b by simp
  fix j assume "j < Suc k"
  show "\<not> escape_down env (n + j)"
  proof (cases j)
    case 0 then show ?thesis using a by simp
  next
    case (Suc i)
    with \<open>j < Suc k\<close> have "i < k" by simp
    with b have "\<not> escape_down env (Suc n + i)" by blast
    then show ?thesis using Suc by simp
  qed
qed

lemma Record_loop_iterations:
  "first_escape env n k \<Longrightarrow> iterations env n k nf s = Inr (nf', s') \<Longrightarrow>
   Record_loop env n nf s = Some (Inr s')"
proof (induction k arbitrary: n nf s)
  case 0
  then show ?case by (simp add: Record_loop_escape first_escape_def)
next
  case (Suc k)
  from Suc.prems(1) have ne: "\<not> escape_down env n"
    unfolding first_escape_def by (metis add.right_neutral zero_less_Suc)
  from Suc.prems(2) obtain nf1 s1 where b: "Record_body env n nf s = Inr (nf1, s1)"
    and it: "iterations env (Suc n) k nf1 s1 = Inr (nf', s')"
    by (auto split: sum.splits)
  have "first_escape env (Suc n) k"
    using Suc.prems(1) unfolding first_escape_def
    by (metis Suc_less_eq add_Suc_shift)
  then have "Record_loop env (Suc n) nf1 s1 = Some (Inr s')"
    using it by (rule Suc.IH)
  then show ?case using ne b by (simp add: Record_loop_step)
qed

lemma Record_loop_Inr:
  assumes "Record_loop env n nf s = Some r"
  shows "\<forall>s'. r = Inr s' \<longrightarrow> (\<exists>k nf'. iterations env n k nf s = Inr (nf', s') \<and> first_escape env n k)"
proof (rule Record_loop.raw_induct[where P = "\<lambda>env n nf s r. \<forall>s'. r = Inr s' \<longrightarrow> (\<exists>k nf'. iterations env n k nf s = Inr (nf', s') \<and> first_escape env n k)", OF _ assms])
  fix loop :: "environment \<Rightarrow> nat \<Rightarrow> int \<Rightarrow> world \<Rightarrow> (error + world) option"
  fix env n nf s r
  assume IH: "\<And>env n nf s r. loop env n nf s = Some r \<Longrightarrow>
     \<forall>s'. r = Inr s' \<longrightarrow> (\<exists>k nf'. iterations env n k nf s = Inr (nf', s') \<and> first_escape env n k)"
  assume eq: "(if escape_down env n then Some (Inr s)
      else case Record_body env n nf s of Inl e \<Rightarrow> Some (Inl e)
           | Inr (next_frame1, s1) \<Rightarrow> loop env (Suc n) next_frame1 s1) = Some r"
  show "\<forall>s'. r = Inr s' \<longrightarrow> (\<exists>k nf'. iterations env n k nf s = Inr (nf', s') \<and> first_escape env n k)"
  proof (intro allI impI)
    fix s' assume r: "r = Inr s'"
    show "\<exists>k nf'. iterations env n k nf s = Inr (nf', s') \<and> first_escape env n k"
    proof (cases "escape_down env n")
      case True
      with eq r have "s' = s" by simp
      with True have "iterations env n 0 nf s = Inr (nf, s') \<and> first_escape env n 0"
        by (simp add: first_escape_0)
      then show ?thesis by blast
    next
      case False
      with eq r obtain nf1 s1 where b: "Record_body env n nf s = Inr (nf1, s1)"
        and l: "loop env (Suc n) nf1 s1 = Some (Inr s')"
        by (auto split: sum.splits)
      from IH[OF l] obtain k nf' where it: "iterations env (Suc n) k nf1 s1 = Inr (nf', s')"
        and e: "first_escape env (Suc n) k"
        by blast
      have "iterations env n (Suc k) nf s = Inr (nf', s')" using b it by simp
      moreover have "first_escape env n (Suc k)" using False e by (rule first_escape_Suc)
      ultimately show ?thesis by blast
    qed
  qed
qed

subsection \<open>What each operation changes\<close>

lemma DrawCursor_emit: "DrawCursor env n s = emit (cursor_events env n) s"
  by (simp add: DrawCursor_def cursor_events_def emit_def)

lemma unchanged_setup_refl: "unchanged_setup s s"
  by (simp add: unchanged_setup_def)

lemma unchanged_setup_trans:
  "unchanged_setup s s1 \<Longrightarrow> unchanged_setup s1 s2 \<Longrightarrow> unchanged_setup s s2"
  by (simp add: unchanged_setup_def)

subsection \<open>Integer arithmetic of the source\<close>

lemma signed_take_bit_31_self:
  fixes p :: int
  assumes "- 2147483648 \<le> p" "p < 2147483648"
  shows "signed_take_bit (LENGTH(32) - 1) p = p"
proof (rule signed_take_bit_int_eq_self)
  show "- (2 ^ (LENGTH(32) - 1)) \<le> p" using assms(1) by simp
  show "p < 2 ^ (LENGTH(32) - 1)" using assms(2) by simp
qed

lemma int_mul_Inr:
  assumes "int_mul a b = Inr c"
  shows "sint c = sint a * sint b"
proof -
  from assms have r: "- 2147483648 \<le> sint a * sint b" "sint a * sint b < 2147483648"
    and c: "c = a * b"
    by (auto simp: int_mul_def split: if_splits)
  have "sint (a * b) = signed_take_bit (LENGTH(32) - 1) (sint a * sint b)"
    by (rule sint_word_mult)
  also have "\<dots> = sint a * sint b" using r by (rule signed_take_bit_31_self)
  finally show ?thesis by (simp only: c)
qed

lemma sint_4_32: "sint (4 :: 32 word) = 4"
  by simp

lemma sint_32_range: "- 2147483648 \<le> sint (x :: 32 word) \<and> sint x < 2147483648"
proof -
  have "- (2 ^ (LENGTH(32) - 1)) \<le> sint x" by (rule sint_ge)
  moreover have "sint x < 2 ^ (LENGTH(32) - 1)" by (rule sint_lt)
  ultimately show ?thesis by simp
qed

lemma size_t_of_int_nonneg:
  assumes "0 \<le> sint x"
  shows "size_t_of_int x = sint x"
proof -
  have "sint x < 18446744073709551616" using sint_32_range[of x] by linarith
  with assms show ?thesis by (simp add: size_t_of_int_def)
qed

lemma size_t_of_int_neg:
  assumes "sint x < 0"
  shows "vector_max_size < size_t_of_int x"
proof -
  have lo: "- 2147483648 \<le> sint x" using sint_32_range[of x] by simp
  have "(sint x + 18446744073709551616) mod 18446744073709551616 = sint x + 18446744073709551616"
    using lo assms by (intro mod_pos_pos_trivial) linarith+
  then have "sint x mod 18446744073709551616 = sint x + 18446744073709551616"
    by (simp only: mod_add_self2)
  then have "size_t_of_int x = sint x + 18446744073709551616"
    by (simp add: size_t_of_int_def)
  with lo show ?thesis by (simp add: vector_max_size_def)
qed

lemma length_resize:
  assumes "resize n xs = Inr ys" and "0 \<le> n"
  shows "int (length ys) = n"
  using assms by (auto simp: resize_def split: if_splits)

lemma dib_bytes_le:
  "int (dib_bytes w h) \<le> max 0 (sint w * sint h * 4)"
proof (cases "0 < sint w \<and> 0 < sint h")
  case True
  then have "int (dib_bytes w h) = sint w * 4 * sint h"
    by (simp add: dib_bytes_def)
  then show ?thesis by (simp add: mult.commute mult.left_commute)
next
  case False
  then show ?thesis by (simp add: dib_bytes_def)
qed

text \<open>The buffer after the test and the resize of lines 119-121.\<close>

lemma grown_buffer:
  assumes "(if int (length xs) < size_t_of_int b then resize (size_t_of_int b) xs else Inr xs)
           = Inr buf"
  shows "int (length buf) = max (int (length xs)) (sint b)"
proof (cases "0 \<le> sint b")
  case True
  note z = size_t_of_int_nonneg[OF True]
  show ?thesis
  proof (cases "int (length xs) < sint b")
    case True
    with assms z have "resize (sint b) xs = Inr buf" by simp
    from length_resize[OF this \<open>0 \<le> sint b\<close>] True show ?thesis by simp
  next
    case False
    with assms z have "buf = xs" by simp
    with False show ?thesis by simp
  qed
next
  case False
  then have neg: "sint b < 0" by simp
  note big = size_t_of_int_neg[OF neg]
  show ?thesis
  proof (cases "int (length xs) < size_t_of_int b")
    case True
    with assms big have False by (simp add: resize_def)
    then show ?thesis ..
  next
    case False
    with assms have "buf = xs" by simp
    with neg show ?thesis by simp
  qed
qed

lemma sint_succ_64:
  fixes x :: "64 word"
  assumes "x \<noteq> INT64_MAX"
  shows "sint (x + 1) = sint x + 1"
proof -
  have m: "sint INT64_MAX = 9223372036854775807" by (simp add: INT64_MAX_def)
  have "sint x \<noteq> sint INT64_MAX" using assms word_eq_iff_signed by blast
  then have ne: "sint x \<noteq> 9223372036854775807" by (simp add: m)
  have lo: "- (2 ^ (LENGTH(64) - 1)) \<le> sint x" by (rule sint_ge)
  have hi: "sint x < 2 ^ (LENGTH(64) - 1)" by (rule sint_lt)
  have "sint (x + 1) = signed_take_bit (LENGTH(64) - 1) (sint x + sint (1 :: 64 word))"
    by (rule sint_word_ariths)
  also have "\<dots> = signed_take_bit (LENGTH(64) - 1) (sint x + 1)" by simp
  also have "\<dots> = sint x + 1"
  proof (rule signed_take_bit_int_eq_self)
    show "- (2 ^ (LENGTH(64) - 1)) \<le> sint x + 1" using lo by linarith
    show "sint x + 1 < 2 ^ (LENGTH(64) - 1)" using hi ne by simp
  qed
  finally show ?thesis .
qed

lemma CaptureFrame_unfold:
  "CaptureFrame env n s =
     (case int_mul (width s) (height s) of
        Inl e \<Rightarrow> Inl e
      | Inr wh \<Rightarrow>
         (case int_mul wh 4 of
            Inl e \<Rightarrow> Inl e
          | Inr bytes \<Rightarrow>
             (case (if int (length (captureBuffer s)) < size_t_of_int bytes
                    then resize (size_t_of_int bytes) (captureBuffer s)
                    else Inr (captureBuffer s)) of
                Inl e \<Rightarrow> Inl e
              | Inr buf \<Rightarrow>
                  if length buf < dib_bytes (width s) (height s) then Inl BufferOverrun
                  else Inr (captured env n s buf))))"
  by (simp add: CaptureFrame_def DrawCursor_emit emit_def Let_def captured_def
        capture_events_def cong: sum.case_cong if_cong)

lemma CaptureFrame_Inr:
  assumes "CaptureFrame env n s = Inr s'"
  shows "unchanged_setup s s' \<and> frame s' = frame s \<and> pts_counter s' = pts_counter s \<and>
         enc_sent s' = enc_sent s \<and> enc_ready s' = enc_ready s \<and> clock s' = clock s \<and>
         trace s' = trace s @ capture_events env n (dib_bytes (width s) (height s))"
proof -
  from assms obtain buf where "s' = captured env n s buf"
    by (auto simp: CaptureFrame_unfold split: sum.splits if_splits)
  then show ?thesis by (simp add: captured_def unchanged_setup_def)
qed

lemma CaptureFrame_buffer:
  assumes "CaptureFrame env n s = Inr s'"
  shows "int (length (captureBuffer s')) =
           max (int (length (captureBuffer s))) (sint (width s) * sint (height s) * 4)"
    and "dib_bytes (width s) (height s) \<le> length (captureBuffer s')"
proof -
  from assms obtain wh bytes buf where a: "int_mul (width s) (height s) = Inr wh"
    and b: "int_mul wh 4 = Inr bytes"
    and g: "(if int (length (captureBuffer s)) < size_t_of_int bytes
             then resize (size_t_of_int bytes) (captureBuffer s)
             else Inr (captureBuffer s)) = Inr buf"
    and k: "\<not> length buf < dib_bytes (width s) (height s)"
    and s': "s' = captured env n s buf"
    by (auto simp: CaptureFrame_unfold split: sum.splits if_splits)
  have p: "sint bytes = sint (width s) * sint (height s) * 4"
    by (simp only: int_mul_Inr[OF b] int_mul_Inr[OF a] sint_4_32)
  have l: "length (captureBuffer s') = length buf"
    using k by (simp add: s' captured_def)
  show "int (length (captureBuffer s')) =
           max (int (length (captureBuffer s))) (sint (width s) * sint (height s) * 4)"
    using grown_buffer[OF g] by (simp only: l p)
  show "dib_bytes (width s) (height s) \<le> length (captureBuffer s')"
    using k by (simp add: l)
qed

lemma CaptureFrame_no_overrun: "CaptureFrame env n s \<noteq> Inl BufferOverrun"
proof
  assume "CaptureFrame env n s = Inl BufferOverrun"
  then obtain wh bytes buf where a: "int_mul (width s) (height s) = Inr wh"
    and b: "int_mul wh 4 = Inr bytes"
    and g: "(if int (length (captureBuffer s)) < size_t_of_int bytes
             then resize (size_t_of_int bytes) (captureBuffer s)
             else Inr (captureBuffer s)) = Inr buf"
    and k: "length buf < dib_bytes (width s) (height s)"
    by (auto simp: CaptureFrame_unfold int_mul_def resize_def split: sum.splits if_splits)
  have p: "sint bytes = sint (width s) * sint (height s) * 4"
    by (simp only: int_mul_Inr[OF b] int_mul_Inr[OF a] sint_4_32)
  have "int (length buf) = max (int (length (captureBuffer s))) (sint bytes)"
    using g by (rule grown_buffer)
  then have "max 0 (sint (width s) * sint (height s) * 4) \<le> int (length buf)"
    by (simp add: p)
  with dib_bytes_le[of "width s" "height s"] have "int (dib_bytes (width s) (height s)) \<le> int (length buf)"
    by linarith
  with k show False by simp
qed

lemma EncodeFrame_drain_Inr:
  "EncodeFrame_drain env s = Inr s' \<Longrightarrow>
   \<exists>ps. s' = s\<lparr>enc_ready := [], trace := trace s @ map WritePacket ps\<rparr>"
proof (induction env s rule: EncodeFrame_drain.induct)
  case (1 env s)
  show ?case
  proof (cases "enc_ready s")
    case Nil
    with "1.prems" have "s' = s"
      by (subst (asm) EncodeFrame_drain.simps) (simp add: avcodec_receive_packet_def)
    with Nil have "s' = s\<lparr>enc_ready := [], trace := trace s @ map WritePacket []\<rparr>" by simp
    then show ?thesis by blast
  next
    case (Cons p ps)
    then have r: "avcodec_receive_packet s = Some (p, s\<lparr>enc_ready := ps\<rparr>)"
      by (simp add: avcodec_receive_packet_def)
    with "1.prems" obtain s2 where m: "mux_packet env p (s\<lparr>enc_ready := ps\<rparr>) = Inr s2"
      and d: "EncodeFrame_drain env s2 = Inr s'"
      by (subst (asm) EncodeFrame_drain.simps) (auto split: sum.splits)
    from m obtain q where s2: "s2 = s\<lparr>enc_ready := ps, trace := trace s @ [WritePacket q]\<rparr>"
      by (auto simp: mux_packet_def emit_def Let_def split: sum.splits)
    from "1.IH"[OF r refl m d] obtain qs where
      "s' = s2\<lparr>enc_ready := [], trace := trace s2 @ map WritePacket qs\<rparr>" by blast
    with s2 have "s' = s\<lparr>enc_ready := [], trace := trace s @ map WritePacket (q # qs)\<rparr>"
      by simp
    then show ?thesis by blast
  qed
qed

lemma EncodeFrame_submit_Inr:
  assumes "EncodeFrame_submit env s = Inr s'"
  shows "unchanged_setup s s' \<and> (\<exists>fr. frame s' = Ptr fr) \<and>
         captureBuffer s' = captureBuffer s \<and> sint (pts_counter s') = sint (pts_counter s) + 1 \<and>
         clock s' = clock s \<and>
         trace s' = trace s @ [SwsScale, SendFrame (Some (pts_counter s))]"
  using assms
  by (auto simp: EncodeFrame_submit_def avcodec_send_frame_def emit_def deref_def Let_def
                 unchanged_setup_def sint_succ_64
           split: sum.splits ptr.splits if_splits)

lemma EncodeFrame_Inr:
  assumes "EncodeFrame env s = Inr s'"
  shows "unchanged_setup s s' \<and> (\<exists>fr. frame s' = Ptr fr) \<and>
         captureBuffer s' = captureBuffer s \<and> sint (pts_counter s') = sint (pts_counter s) + 1 \<and>
         clock s' = clock s \<and> enc_ready s' = [] \<and>
         (\<exists>ps. trace s' = trace s @ [SwsScale, SendFrame (Some (pts_counter s)), Acquire Packet]
                                 @ map WritePacket ps @ [Release Packet])"
proof -
  from assms obtain s3 s4 where a: "EncodeFrame_submit env s = Inr s3"
    and b: "EncodeFrame_drain env (emit [Acquire Packet] s3) = Inr s4"
    and c: "s' = emit [Release Packet] s4"
    by (auto simp: EncodeFrame_def split: sum.splits)
  note s3 = EncodeFrame_submit_Inr[OF a]
  from EncodeFrame_drain_Inr[OF b] obtain ps where
    s4: "s4 = (emit [Acquire Packet] s3)\<lparr>enc_ready := [],
               trace := trace (emit [Acquire Packet] s3) @ map WritePacket ps\<rparr>" by blast
  have tr: "trace s' = trace s @ [SwsScale, SendFrame (Some (pts_counter s)), Acquire Packet]
                                 @ map WritePacket ps @ [Release Packet]"
    using s3 by (simp add: c s4 emit_def)
  have "unchanged_setup s s' \<and> (\<exists>fr. frame s' = Ptr fr) \<and>
         captureBuffer s' = captureBuffer s \<and> sint (pts_counter s') = sint (pts_counter s) + 1 \<and>
         clock s' = clock s \<and> enc_ready s' = []"
    using s3 by (simp add: c s4 emit_def unchanged_setup_def)
  with tr show ?thesis by blast
qed

lemma Record_body_Inr:
  assumes "Record_body env n nf s = Inr (nf', s')"
  shows "nf' = nf + FRAME_DELAY \<and> unchanged_setup s s' \<and> (\<exists>fr. frame s' = Ptr fr) \<and>
         sint (pts_counter s') = sint (pts_counter s) + 1 \<and> enc_ready s' = [] \<and>
         int (length (captureBuffer s')) =
           max (int (length (captureBuffer s))) (sint (width s) * sint (height s) * 4) \<and>
         (\<exists>ps. trace s' = trace s @ body_events env n nf s ps)"
proof -
  from assms obtain s1 s2 where a: "CaptureFrame env n s = Inr s1"
    and b: "EncodeFrame env s1 = Inr s2"
    and c: "nf' = nf + FRAME_DELAY"
    and d: "s' = (emit [SleepUntil (nf + FRAME_DELAY) (clock s2 + int (work_ms env n))]
                   (s2\<lparr>clock := clock s2 + int (work_ms env n)\<rparr>))
                \<lparr>clock := max (clock s2 + int (work_ms env n)) (nf + FRAME_DELAY)\<rparr>"
    by (auto simp: Record_body_def Let_def emit_def split: sum.splits)
  note s1 = CaptureFrame_Inr[OF a] CaptureFrame_buffer[OF a]
  note s2 = EncodeFrame_Inr[OF b]
  from s2 obtain ps where tr2: "trace s2 = trace s1 @ [SwsScale, SendFrame (Some (pts_counter s1)), Acquire Packet]
                                 @ map WritePacket ps @ [Release Packet]" by blast
  have tr: "trace s' = trace s @ body_events env n nf s ps"
    using s1(1) s2 by (simp add: d emit_def tr2 body_events_def)
  have u: "unchanged_setup s s'"
    using s1(1) s2 by (simp add: d emit_def unchanged_setup_def)
  have "(\<exists>fr. frame s' = Ptr fr) \<and>
         sint (pts_counter s') = sint (pts_counter s) + 1 \<and> enc_ready s' = [] \<and>
         int (length (captureBuffer s')) =
           max (int (length (captureBuffer s))) (sint (width s) * sint (height s) * 4)"
    using s1 s2 by (simp add: d emit_def)
  with c tr u show ?thesis by blast
qed

lemma iterations_Inr:
  "iterations env n k nf s = Inr (nf', s') \<Longrightarrow>
   nf' = nf + int k * FRAME_DELAY \<and> unchanged_setup s s' \<and>
   sint (pts_counter s') = sint (pts_counter s) + int k \<and>
   length (captureBuffer s) \<le> length (captureBuffer s') \<and>
   (k = 0 \<or> enc_ready s' = [])"
proof (induction k arbitrary: n nf s)
  case 0
  then show ?case by (simp add: unchanged_setup_refl)
next
  case (Suc k)
  from Suc.prems obtain nf1 s1 where b: "Record_body env n nf s = Inr (nf1, s1)"
    and it: "iterations env (Suc n) k nf1 s1 = Inr (nf', s')"
    by (auto split: sum.splits)
  note h = Record_body_Inr[OF b] Suc.IH[OF it]
  have "unchanged_setup s s'" using h unchanged_setup_trans by blast
  moreover have "nf' = nf + int (Suc k) * FRAME_DELAY" using h by (simp add: algebra_simps)
  moreover have "sint (pts_counter s') = sint (pts_counter s) + int (Suc k)" using h by simp
  moreover have "length (captureBuffer s) \<le> length (captureBuffer s')"
  proof -
    from h have "int (length (captureBuffer s)) \<le> int (length (captureBuffer s1))" by linarith
    moreover from h have "length (captureBuffer s1) \<le> length (captureBuffer s')" by blast
    ultimately show ?thesis by linarith
  qed
  moreover have "enc_ready s' = []" using h it by (cases k) auto
  ultimately show ?case by simp
qed

lemma upt_shift: "map f [0..<Suc k] = f 0 # map (\<lambda>i. f (Suc i)) [0..<k]"
  by (simp add: upt_conv_Cons map_Suc_upt[symmetric] del: upt_Suc)

lemma submitted_pts_body: "submitted_pts (body_events env n nf s ps) = [pts_counter s]"
  by (simp add: body_events_def capture_events_def cursor_events_def submitted_pts_append submitted_pts_map)

lemma frames_captured_body: "frames_captured (body_events env n nf s ps) = 1"
  by (simp add: body_events_def capture_events_def cursor_events_def frames_captured_append frames_captured_map)

lemma deadlines_body: "deadlines (body_events env n nf s ps) = [nf + FRAME_DELAY]"
  by (simp add: body_events_def capture_events_def cursor_events_def deadlines_append deadlines_map)

lemma iterations_submitted_pts:
  "iterations env n k nf s = Inr (nf', s') \<Longrightarrow>
   map sint (submitted_pts (trace s')) =
     map sint (submitted_pts (trace s)) @ map (\<lambda>i. sint (pts_counter s) + int i) [0..<k]"
proof (induction k arbitrary: n nf s)
  case 0
  then show ?case by simp
next
  case (Suc k)
  from Suc.prems obtain nf1 s1 where b: "Record_body env n nf s = Inr (nf1, s1)"
    and it: "iterations env (Suc n) k nf1 s1 = Inr (nf', s')"
    by (auto split: sum.splits)
  from Record_body_Inr[OF b] obtain ps where tr: "trace s1 = trace s @ body_events env n nf s ps"
    and p: "sint (pts_counter s1) = sint (pts_counter s) + 1" by blast
  have "map sint (submitted_pts (trace s')) =
          map sint (submitted_pts (trace s1)) @ map (\<lambda>i. sint (pts_counter s1) + int i) [0..<k]"
    using it by (rule Suc.IH)
  also have "map sint (submitted_pts (trace s1)) =
               map sint (submitted_pts (trace s)) @ [sint (pts_counter s)]"
    by (simp add: tr submitted_pts_append submitted_pts_body)
  finally have e: "map sint (submitted_pts (trace s')) =
      map sint (submitted_pts (trace s)) @
      sint (pts_counter s) # map (\<lambda>i. sint (pts_counter s1) + int i) [0..<k]"
    by simp
  have "map (\<lambda>i. sint (pts_counter s) + int i) [0..<Suc k] =
        sint (pts_counter s) # map (\<lambda>i. sint (pts_counter s1) + int i) [0..<k]"
    by (subst upt_shift) (simp add: p algebra_simps)
  with e show ?case by (simp del: upt_Suc)
qed

lemma iterations_frames_captured:
  "iterations env n k nf s = Inr (nf', s') \<Longrightarrow>
   frames_captured (trace s') = frames_captured (trace s) + k"
proof (induction k arbitrary: n nf s)
  case 0
  then show ?case by simp
next
  case (Suc k)
  from Suc.prems obtain nf1 s1 where b: "Record_body env n nf s = Inr (nf1, s1)"
    and it: "iterations env (Suc n) k nf1 s1 = Inr (nf', s')"
    by (auto split: sum.splits)
  from Record_body_Inr[OF b] obtain ps where tr: "trace s1 = trace s @ body_events env n nf s ps"
    by blast
  have "frames_captured (trace s') = frames_captured (trace s1) + k"
    using it by (rule Suc.IH)
  then show ?case by (simp add: tr frames_captured_append frames_captured_body)
qed

lemma iterations_deadlines:
  "iterations env n k nf s = Inr (nf', s') \<Longrightarrow>
   deadlines (trace s') = deadlines (trace s) @ map (\<lambda>i. nf + (int i + 1) * FRAME_DELAY) [0..<k]"
proof (induction k arbitrary: n nf s)
  case 0
  then show ?case by simp
next
  case (Suc k)
  from Suc.prems obtain nf1 s1 where b: "Record_body env n nf s = Inr (nf1, s1)"
    and it: "iterations env (Suc n) k nf1 s1 = Inr (nf', s')"
    by (auto split: sum.splits)
  from Record_body_Inr[OF b] obtain ps where tr: "trace s1 = trace s @ body_events env n nf s ps"
    and p: "nf1 = nf + FRAME_DELAY" by blast
  have "deadlines (trace s') = deadlines (trace s1) @ map (\<lambda>i. nf1 + (int i + 1) * FRAME_DELAY) [0..<k]"
    using it by (rule Suc.IH)
  also have "deadlines (trace s1) = deadlines (trace s) @ [nf + FRAME_DELAY]"
    by (simp add: tr deadlines_append deadlines_body)
  finally have e: "deadlines (trace s') =
      deadlines (trace s) @ (nf + FRAME_DELAY) # map (\<lambda>i. nf1 + (int i + 1) * FRAME_DELAY) [0..<k]"
    by simp
  have "map (\<lambda>i. nf + (int i + 1) * FRAME_DELAY) [0..<Suc k] =
        (nf + FRAME_DELAY) # map (\<lambda>i. nf1 + (int i + 1) * FRAME_DELAY) [0..<k]"
    by (subst upt_shift) (simp add: p algebra_simps)
  with e show ?case by (simp del: upt_Suc)
qed

lemma destructor_Inr:
  assumes "destructor s = Inr s'"
  shows "trace s' = trace s @ destructor_events s"
  using assms
  by (auto simp: destructor_def release_def destructor_events_def emit_def
           split: sum.splits ptr.splits)

lemma destructor_total:
  assumes "codec_ctx s \<noteq> Wild" "fmt_ctx s \<noteq> Wild" "sws_ctx s \<noteq> Wild" "frame s \<noteq> Wild"
  shows "\<exists>s'. destructor s = Inr s'"
  using assms
  by (auto simp: destructor_def release_def emit_def split: sum.splits ptr.splits)

lemma Record_drain_fields:
  "trace (Record_drain s) = trace s @ map WritePacket (enc_ready s) \<and>
   enc_ready (Record_drain s) = [] \<and> unchanged_setup s (Record_drain s) \<and>
   frame (Record_drain s) = frame s \<and> pts_counter (Record_drain s) = pts_counter s \<and>
   captureBuffer (Record_drain s) = captureBuffer s"
proof (induction s rule: Record_drain.induct)
  case (1 s)
  show ?case
  proof (cases "enc_ready s")
    case Nil
    then have "Record_drain s = s"
      by (subst Record_drain.simps) (simp add: avcodec_receive_packet_def)
    with Nil show ?thesis by (simp add: unchanged_setup_refl)
  next
    case (Cons p ps)
    then have r: "avcodec_receive_packet s = Some (p, s\<lparr>enc_ready := ps\<rparr>)"
      by (simp add: avcodec_receive_packet_def)
    then have e: "Record_drain s = Record_drain (emit [WritePacket p] (s\<lparr>enc_ready := ps\<rparr>))"
      by (subst Record_drain.simps) simp
    from "1.IH"[OF r refl] show ?thesis
      unfolding e by (simp add: emit_def Cons unchanged_setup_def)
  qed
qed

lemma Record_finish_Inr:
  assumes "Record_finish env s = Inr s'"
  shows "unchanged_setup s s' \<and> frame s' = frame s \<and> pts_counter s' = pts_counter s \<and>
         captureBuffer s' = captureBuffer s \<and>
         (\<exists>cc. codec_ctx s = Ptr cc \<and>
            trace s' = trace s @ [Acquire Packet, SendFrame None] @
              map WritePacket (enc_ready s @
                 (if cc_opened cc then encoder_output env (enc_sent s) None else [])) @
              [Release Packet, WriteTrailer])"
proof -
  from assms obtain s1 where a: "avcodec_send_frame env None (emit [Acquire Packet] s) = Inr s1"
    and b: "s' = emit [Release Packet, WriteTrailer] (Record_drain s1)"
    by (auto simp: Record_finish_def split: sum.splits)
  from a obtain cc where cc: "codec_ctx s = Ptr cc"
    and s1: "unchanged_setup s s1 \<and> frame s1 = frame s \<and> pts_counter s1 = pts_counter s \<and>
         captureBuffer s1 = captureBuffer s \<and>
         trace s1 = trace s @ [Acquire Packet, SendFrame None] \<and>
         enc_ready s1 = enc_ready s @ (if cc_opened cc then encoder_output env (enc_sent s) None else [])"
    by (auto simp: avcodec_send_frame_def emit_def deref_def Let_def unchanged_setup_def
             split: ptr.splits if_splits)
  note d = Record_drain_fields[of s1]
  have "unchanged_setup s s'" using s1 d by (simp add: b emit_def unchanged_setup_def)
  moreover have "frame s' = frame s \<and> pts_counter s' = pts_counter s \<and>
         captureBuffer s' = captureBuffer s" using s1 d by (simp add: b emit_def)
  moreover have "trace s' = trace s @ [Acquire Packet, SendFrame None] @
              map WritePacket (enc_ready s @
                 (if cc_opened cc then encoder_output env (enc_sent s) None else [])) @
              [Release Packet, WriteTrailer]"
    using s1 d by (simp add: b emit_def)
  ultimately show ?thesis using cc by blast
qed

lemma Initialize_True:
  assumes "Initialize env (ScreenRecorder env) = (True, s1)"
  shows "trace s1 = [Acquire FormatContext, Acquire CodecContext, Acquire ScalerContext,
                     Acquire EncoderFrame, Acquire OutputFile, WriteHeader]"
    and "pts_counter s1 = 0 \<and> clock s1 = clock_start env \<and> captureBuffer s1 = [] \<and>
         enc_ready s1 = [] \<and> enc_sent s1 = [] \<and>
         width s1 = screen_cx env \<and> height s1 = screen_cy env"
    and "codec_ctx s1 = Ptr \<lparr>cc_width = screen_cx env, cc_height = screen_cy env,
                          cc_time_base = (1, FPS), cc_pix_fmt = AV_PIX_FMT_YUV420P,
                          cc_bit_rate = 4000000, cc_opened = codec_open_ok env\<rparr>"
    and "stream s1 = Ptr \<lparr>st_index = new_stream_index env, st_time_base = muxer_time_base env\<rparr>"
    and "(\<exists>fr. frame s1 = Ptr fr) \<and> (\<exists>sw. sws_ctx s1 = Ptr sw) \<and> (\<exists>fc. fmt_ctx s1 = Ptr fc)"
    and "alloc_output_context_ok env \<and> find_encoder_ok env \<and> new_stream_ok env \<and> avio_open_ok env"
  using assms
  by (auto simp: Initialize_def ScreenRecorder_def emit_def Let_def split: if_splits)

lemma Initialize_False:
  assumes "Initialize env (ScreenRecorder env) = (False, s1)"
  shows "\<not> (alloc_output_context_ok env \<and> find_encoder_ok env \<and> new_stream_ok env \<and> avio_open_ok env)"
    and "\<exists>rs. trace s1 = map Acquire rs"
proof -
  show "\<not> (alloc_output_context_ok env \<and> find_encoder_ok env \<and> new_stream_ok env \<and> avio_open_ok env)"
    using assms
    by (auto simp: Initialize_def ScreenRecorder_def emit_def Let_def split: if_splits)
  have "trace s1 = map Acquire [] \<or> trace s1 = map Acquire [FormatContext] \<or>
        trace s1 = map Acquire [FormatContext, CodecContext, ScalerContext, EncoderFrame]"
    using assms
    by (auto simp: Initialize_def ScreenRecorder_def emit_def Let_def split: if_splits)
  then show "\<exists>rs. trace s1 = map Acquire rs" by blast
qed

lemma main_cases:
  assumes "main env = Some (Inr (c, s))"
  shows "c = 0 \<and>
     ((\<exists>s1. Initialize env (ScreenRecorder env) = (False, s1) \<and> destructor s1 = Inr s) \<or>
      (\<exists>s1 k nf s2 s3. Initialize env (ScreenRecorder env) = (True, s1) \<and>
          first_escape env 0 k \<and> iterations env 0 k (clock s1) s1 = Inr (nf, s2) \<and>
          Record_finish env s2 = Inr s3 \<and> destructor s3 = Inr s))"
proof (cases "Initialize env (ScreenRecorder env)")
  case (Pair ok s1)
  show ?thesis
  proof (cases ok)
    case False
    with Pair assms show ?thesis
      by (auto simp: main_def exit_with_def split: sum.splits)
  next
    case True
    with Pair assms obtain s3 where r: "Record env s1 = Some (Inr s3)" and c: "c = 0"
      and s: "destructor s3 = Inr s"
      by (auto simp: main_def exit_with_def split: option.splits sum.splits)
    from r obtain s2 where l: "Record_loop env 0 (clock s1) s1 = Some (Inr s2)"
      and f: "Record_finish env s2 = Inr s3"
      by (auto simp: Record_def split: option.splits sum.splits)
    from Record_loop_Inr[OF l] obtain k nf where
      "iterations env 0 k (clock s1) s1 = Inr (nf, s2)" "first_escape env 0 k" by blast
    moreover from Pair True have "Initialize env (ScreenRecorder env) = (True, s1)" by simp
    ultimately show ?thesis using c s f by blast
  qed
qed

lemma readings_Acquire:
  "submitted_pts (map Acquire rs) = []" "frames_captured (map Acquire rs) = 0"
  "written_packets (map Acquire rs) = []" "deadlines (map Acquire rs) = []"
  by (induction rs) auto

lemma readings_destructor:
  "submitted_pts (destructor_events s) = []" "frames_captured (destructor_events s) = 0"
  "written_packets (destructor_events s) = []" "deadlines (destructor_events s) = []"
  by (simp_all add: destructor_events_def)

lemma main_readings:
  assumes "main env = Some (Inr (c, s))"
  shows "\<exists>k. frames_captured (trace s) = k \<and>
             map sint (submitted_pts (trace s)) = map int [0..<k] \<and>
             deadlines (trace s) = map (\<lambda>i. clock_start env + (int i + 1) * FRAME_DELAY) [0..<k]"
proof -
  from main_cases[OF assms] consider
    (failed) s1 where "Initialize env (ScreenRecorder env) = (False, s1)" "destructor s1 = Inr s"
  | (recorded) s1 k nf s2 s3 where "Initialize env (ScreenRecorder env) = (True, s1)"
      "iterations env 0 k (clock s1) s1 = Inr (nf, s2)"
      "Record_finish env s2 = Inr s3" "destructor s3 = Inr s"
    by blast
  then show ?thesis
  proof cases
    case failed
    from Initialize_False(2)[OF failed(1)] obtain rs where "trace s1 = map Acquire rs" ..
    then have "frames_captured (trace s) = 0 \<and> submitted_pts (trace s) = [] \<and> deadlines (trace s) = []"
      by (simp add: destructor_Inr[OF failed(2)] submitted_pts_append frames_captured_append
            deadlines_append readings_Acquire readings_destructor)
    then show ?thesis by simp
  next
    case recorded
    note i = Initialize_True[OF recorded(1)]
    from Record_finish_Inr[OF recorded(3)] obtain ps where
      f: "trace s3 = trace s2 @ [Acquire Packet, SendFrame None] @ map WritePacket ps @
              [Release Packet, WriteTrailer]" by blast
    have a: "frames_captured (trace s) = frames_captured (trace s2)"
      by (simp add: destructor_Inr[OF recorded(4)] f frames_captured_append frames_captured_map
            readings_destructor)
    have b: "submitted_pts (trace s) = submitted_pts (trace s2)"
      by (simp add: destructor_Inr[OF recorded(4)] f submitted_pts_append submitted_pts_map
            readings_destructor)
    have c: "deadlines (trace s) = deadlines (trace s2)"
      by (simp add: destructor_Inr[OF recorded(4)] f deadlines_append deadlines_map
            readings_destructor)
    have "frames_captured (trace s2) = k"
      using iterations_frames_captured[OF recorded(2)] by (simp add: i(1))
    moreover have "map sint (submitted_pts (trace s2)) = map int [0..<k]"
      using iterations_submitted_pts[OF recorded(2)] i(2) by (simp add: i(1))
    moreover have "deadlines (trace s2) = map (\<lambda>i. clock_start env + (int i + 1) * FRAME_DELAY) [0..<k]"
      using iterations_deadlines[OF recorded(2)] i(2) by (simp add: i(1))
    ultimately show ?thesis using a b c by simp
  qed
qed

section \<open>The claims\<close>

subsection \<open>Runs of the concrete environment\<close>

lemma completed_run_Some:
  "completed_run env = Some (c, tr) \<Longrightarrow> \<exists>s. main env = Some (Inr (c, s)) \<and> trace s = tr"
  by (auto simp: completed_run_def split: option.splits sum.splits)

lemma demo_run_3:
  "completed_run (demo_env 3) =
   Some (0,
       [Acquire FormatContext, Acquire CodecContext, Acquire ScalerContext,
        Acquire EncoderFrame, Acquire OutputFile, WriteHeader,
        Acquire ScreenDC, Acquire MemDC, Acquire Bitmap,
        DrawOp SelectObject, DrawOp BitBlt, Acquire Brush, DrawOp FrameRect,
        Release Brush, Acquire IconColorBitmap, Acquire IconMaskBitmap,
        DrawOp DrawIconEx, Release IconColorBitmap, Release IconMaskBitmap,
        GetDIBits 8, Release Bitmap, Release MemDC, Release ScreenDC,
        SwsScale, SendFrame (Some 0), Acquire Packet, Release Packet,
        SleepUntil 1033 1050, Acquire ScreenDC, Acquire MemDC,
        Acquire Bitmap, DrawOp SelectObject, DrawOp BitBlt, Acquire Brush,
        DrawOp FrameRect, Release Brush, Acquire IconColorBitmap,
        Acquire IconMaskBitmap, DrawOp DrawIconEx, Release IconColorBitmap,
        Release IconMaskBitmap, GetDIBits 8, Release Bitmap, Release MemDC,
        Release ScreenDC, SwsScale, SendFrame (Some 1), Acquire Packet,
        WritePacket
         \<lparr>pkt_pts = 0, pkt_dts = 0, pkt_duration = 512,
            pkt_stream_index = 0, pkt_data = [0]\<rparr>,
        WritePacket
         \<lparr>pkt_pts = 512, pkt_dts = 512, pkt_duration = 512,
            pkt_stream_index = 0, pkt_data = [1]\<rparr>,
        Release Packet, SleepUntil 1066 1055, Acquire ScreenDC,
        Acquire MemDC, Acquire Bitmap, DrawOp SelectObject, DrawOp BitBlt,
        Acquire Brush, DrawOp FrameRect, Release Brush,
        Acquire IconColorBitmap, Acquire IconMaskBitmap, DrawOp DrawIconEx,
        Release IconColorBitmap, Release IconMaskBitmap, GetDIBits 8,
        Release Bitmap, Release MemDC, Release ScreenDC, SwsScale,
        SendFrame (Some 2), Acquire Packet, Release Packet,
        SleepUntil 1099 1071, Acquire Packet, SendFrame None,
        WritePacket
         \<lparr>pkt_pts = 2, pkt_dts = 2, pkt_duration = 1, pkt_stream_index = 0,
            pkt_data = [2]\<rparr>,
        Release Packet, WriteTrailer, Release CodecContext,
        Release FormatContext, Release ScalerContext,
        Release EncoderFrame])"
  by code_simp

lemma demo_Initialize:
  "Initialize (demo_env k) (ScreenRecorder (demo_env k)) =
     (True, \<lparr>width = 2, height = 1,
              sws_ctx = Ptr \<lparr>sws_width = 2, sws_height = 1\<rparr>,
              codec_ctx = Ptr \<lparr>cc_width = 2, cc_height = 1, cc_time_base = (1, 30),
                               cc_pix_fmt = AV_PIX_FMT_YUV420P, cc_bit_rate = 4000000,
                               cc_opened = True\<rparr>,
              fmt_ctx = Ptr \<lparr>pb_open = True\<rparr>,
              stream = Ptr \<lparr>st_index = 0, st_time_base = (1, 15360)\<rparr>,
              frame = Ptr \<lparr>frame_format = AV_PIX_FMT_YUV420P, frame_width = 2,
                            frame_height = 1, frame_pts = AV_NOPTS_VALUE, frame_data = []\<rparr>,
              captureBuffer = [], pts_counter = 0, enc_sent = [], enc_ready = [],
              clock = 1000,
              trace = [Acquire FormatContext, Acquire CodecContext, Acquire ScalerContext,
                       Acquire EncoderFrame, Acquire OutputFile, WriteHeader]\<rparr>)"
  by (simp add: Initialize_def ScreenRecorder_def demo_env_def emit_def Let_def FPS_def)

lemma FRAME_DELAY_33: "FRAME_DELAY = 33"
  by (simp add: FRAME_DELAY_def FPS_def signed_divide_int_def)

subsection \<open>C1: presentation timestamps\<close>

text \<open>
  C1. In every completed run the timestamps of the frames submitted to the encoder,
  read as the signed 64-bit integers they are, are exactly 0, 1, ..., N - 1, where N is
  the number of frames captured: the counter starts at zero and advances by one per
  captured frame, without gap or repetition, whatever the clock and the sleeps do.
\<close>

theorem pts_sequence:
  assumes "main env = Some (Inr (c, s))"
    and "frames_captured (trace s) = N"
  shows "map sint (submitted_pts (trace s)) = map int [0..<N]"
  using main_readings[OF assms(1)] assms(2) by simp

theorem pts_sequence_witness:
  "\<exists>s. main (demo_env 3) = Some (Inr (0, s)) \<and> frames_captured (trace s) = 3 \<and>
       map sint (submitted_pts (trace s)) = [0, 1, 2]"
proof -
  from completed_run_Some[OF demo_run_3] obtain s where m: "main (demo_env 3) = Some (Inr (0, s))"
    and f: "frames_captured (trace s) = 3"
    by auto
  have u: "map int [0..<3] = [0, 1, 2]" by code_simp
  have r: "map sint (submitted_pts (trace s)) = [0, 1, 2]"
    using pts_sequence[OF m f] by (simp only: u)
  show ?thesis
    by (rule exI[of _ s]) (simp add: m f r)
qed

subsection \<open>C3: pacing deadlines\<close>

text \<open>
  C3. In every completed run the deadline passed to the n-th \<open>sleep_until\<close>
  (n = 1, ..., N) is the clock reading taken before the loop plus n times
  \<open>FRAME_DELAY\<close>: each deadline is the previous one plus the fixed interval, and no
  clock reading taken during the loop enters it, however long an iteration takes.
\<close>

theorem deadline_sequence:
  assumes "main env = Some (Inr (c, s))"
    and "frames_captured (trace s) = N"
  shows "deadlines (trace s) = map (\<lambda>n. clock_start env + int n * FRAME_DELAY) [1..<Suc N]"
proof -
  from main_readings[OF assms(1)] assms(2)
  have "deadlines (trace s) = map (\<lambda>i. clock_start env + (int i + 1) * FRAME_DELAY) [0..<N]"
    by simp
  also have "\<dots> = map ((\<lambda>n. clock_start env + int n * FRAME_DELAY) \<circ> Suc) [0..<N]"
    by (simp add: algebra_simps)
  also have "\<dots> = map (\<lambda>n. clock_start env + int n * FRAME_DELAY) (map Suc [0..<N])"
    by simp
  also have "map Suc [0..<N] = [1..<Suc N]"
    by (simp only: map_Suc_upt One_nat_def)
  finally show ?thesis .
qed

theorem deadline_sequence_witness:
  "\<exists>s. main (demo_env 3) = Some (Inr (0, s)) \<and> frames_captured (trace s) = 3 \<and>
       deadlines (trace s) = [1033, 1066, 1099] \<and>
       SleepUntil 1033 1050 \<in> set (trace s) \<and> work_ms (demo_env 3) 0 = 50"
proof -
  from completed_run_Some[OF demo_run_3] obtain s where m: "main (demo_env 3) = Some (Inr (0, s))"
    and f: "frames_captured (trace s) = 3" and o: "SleepUntil 1033 1050 \<in> set (trace s)"
    by auto
  have u: "map (\<lambda>n. clock_start (demo_env 3) + int n * FRAME_DELAY) [1..<Suc 3] =
           [1033, 1066, 1099]" by code_simp
  have r: "deadlines (trace s) = [1033, 1066, 1099]"
    using deadline_sequence[OF m f] by (simp only: u)
  show ?thesis
    by (rule exI[of _ s]) (simp add: m f r o, simp add: demo_env_def)
qed

subsection \<open>C9: the exit code\<close>

lemma main_returns_zero: "main env = Some (Inr (c, s)) \<Longrightarrow> c = 0"
  using main_cases by blast

text \<open>
  C9. Not every path ends with exit code 0. When \<open>Initialize\<close> fails at line 26, 30 or
  34, the member \<open>frame\<close> still holds the indeterminate value the constructor left in
  it (line 17 initialises the three other pointers only, line 51 is not reached), and
  the destructor, run when \<open>main\<close> returns, tests it and passes it to \<open>av_frame_free\<close>
  (line 90). When that value is not null the run ends there, in undefined behaviour,
  and not with the return value 0.
\<close>

theorem uninitialised_frame_freed:
  assumes "frame_member_garbage env"
    and "\<not> alloc_output_context_ok env \<or> \<not> find_encoder_ok env \<or> \<not> new_stream_ok env"
  shows "\<not> fst (Initialize env (ScreenRecorder env)) \<and>
         frame (snd (Initialize env (ScreenRecorder env))) = Wild \<and>
         main env = Some (Inl WildPointer)"
proof -
  obtain ok s1 where i: "Initialize env (ScreenRecorder env) = (ok, s1)"
    by (cases "Initialize env (ScreenRecorder env)")
  from assms have a: "\<not> ok \<and> frame s1 = Wild \<and> codec_ctx s1 = Nullptr \<and> sws_ctx s1 = Nullptr \<and>
     fmt_ctx s1 \<noteq> Wild"
    using i by (auto simp: Initialize_def ScreenRecorder_def emit_def Let_def split: if_splits)
  then have "destructor s1 = Inl WildPointer"
    by (auto simp: destructor_def release_def emit_def split: ptr.splits sum.splits)
  with a show ?thesis by (simp add: main_def i exit_with_def)
qed

theorem uninitialised_frame_freed_witness:
  "frame_member_garbage ((demo_env 3)\<lparr>find_encoder_ok := False\<rparr>) \<and>
   \<not> fst (Initialize ((demo_env 3)\<lparr>find_encoder_ok := False\<rparr>)
                     (ScreenRecorder ((demo_env 3)\<lparr>find_encoder_ok := False\<rparr>))) \<and>
   main ((demo_env 3)\<lparr>find_encoder_ok := False\<rparr>) = Some (Inl WildPointer) \<and>
   main ((demo_env 3)\<lparr>alloc_output_context_ok := False\<rparr>) = Some (Inl WildPointer) \<and>
   main ((demo_env 3)\<lparr>new_stream_ok := False\<rparr>) = Some (Inl WildPointer)"
proof -
  have g: "frame_member_garbage ((demo_env 3)\<lparr>find_encoder_ok := False\<rparr>)"
    "frame_member_garbage ((demo_env 3)\<lparr>alloc_output_context_ok := False\<rparr>)"
    "frame_member_garbage ((demo_env 3)\<lparr>new_stream_ok := False\<rparr>)"
    by (simp_all add: demo_env_def)
  from uninitialised_frame_freed[OF g(1)] uninitialised_frame_freed[OF g(2)]
    uninitialised_frame_freed[OF g(3)] g(1)
  show ?thesis by simp
qed

subsection \<open>C6: a run without frames\<close>

lemma Record_finish_total:
  assumes "codec_ctx s = Ptr cc"
  shows "\<exists>s'. Record_finish env s = Inr s'"
  using assms
  by (simp add: Record_finish_def avcodec_send_frame_def emit_def deref_def Let_def)

text \<open>
  C6. When \<open>Initialize\<close> has succeeded and the escape key is down at the first poll,
  no frame is captured and the program still allocates a packet, submits the null
  frame, writes every packet the encoder then hands out, frees the packet, writes the
  trailer, and releases its contexts: \<open>main\<close> returns 0 with exactly this trace.
\<close>

theorem zero_frames_finalized:
  assumes "Initialize env (ScreenRecorder env) = (True, s1)"
    and "escape_down env 0"
  shows "\<exists>s. main env = Some (Inr (0, s)) \<and> frames_captured (trace s) = 0 \<and>
           trace s =
             [Acquire FormatContext, Acquire CodecContext, Acquire ScalerContext,
              Acquire EncoderFrame, Acquire OutputFile, WriteHeader] @
             [Acquire Packet, SendFrame None] @
             map WritePacket (if codec_open_ok env then encoder_output env [] None else []) @
             [Release Packet, WriteTrailer] @
             [Release CodecContext, Release FormatContext, Release ScalerContext,
              Release EncoderFrame]"
proof -
  note i = Initialize_True[OF assms(1)]
  from Record_finish_total[OF i(3)] obtain s3 where f: "Record_finish env s1 = Inr s3" ..
  have l: "Record_loop env 0 (clock s1) s1 = Some (Inr s1)"
    using assms(2) by (rule Record_loop_escape)
  note g = Record_finish_Inr[OF f]
  have "\<exists>s. destructor s3 = Inr s"
    using g i(3,5) by (intro destructor_total) (auto simp: unchanged_setup_def)
  then obtain s where ds: "destructor s3 = Inr s" ..
  have m: "main env = Some (Inr (0, s))"
    by (simp add: main_def assms(1) Record_def l f exit_with_def ds)
  from g i(3) have t3: "trace s3 = trace s1 @ [Acquire Packet, SendFrame None] @
              map WritePacket (if codec_open_ok env then encoder_output env [] None else []) @
              [Release Packet, WriteTrailer]"
    using i(2) by auto
  have d: "destructor_events s3 =
     [Release CodecContext, Release FormatContext, Release ScalerContext, Release EncoderFrame]"
    using g i(3,5) by (auto simp: destructor_events_def unchanged_setup_def)
  have t: "trace s =
             [Acquire FormatContext, Acquire CodecContext, Acquire ScalerContext,
              Acquire EncoderFrame, Acquire OutputFile, WriteHeader] @
             [Acquire Packet, SendFrame None] @
             map WritePacket (if codec_open_ok env then encoder_output env [] None else []) @
             [Release Packet, WriteTrailer] @
             [Release CodecContext, Release FormatContext, Release ScalerContext,
              Release EncoderFrame]"
    by (simp add: destructor_Inr[OF ds] t3 d i(1))
  have "frames_captured (trace s) = 0"
    by (simp add: t frames_captured_append frames_captured_map)
  with m t show ?thesis by blast
qed

theorem zero_frames_finalized_witness:
  "escape_down (demo_env 0) 0 \<and>
   (\<exists>s. main (demo_env 0) = Some (Inr (0, s)) \<and> frames_captured (trace s) = 0 \<and>
        trace s =
             [Acquire FormatContext, Acquire CodecContext, Acquire ScalerContext,
              Acquire EncoderFrame, Acquire OutputFile, WriteHeader,
              Acquire Packet, SendFrame None, Release Packet, WriteTrailer,
              Release CodecContext, Release FormatContext, Release ScalerContext,
              Release EncoderFrame])"
proof -
  have e: "escape_down (demo_env 0) 0" by (simp add: demo_env_def)
  have o: "(if codec_open_ok (demo_env 0) then encoder_output (demo_env 0) [] None else []) = []"
    by (simp add: demo_env_def demo_encoder_def)
  from zero_frames_finalized[OF demo_Initialize e] show ?thesis
    unfolding o using e by simp
qed

subsection \<open>C10: the pacing interval and the time base\<close>

text \<open>
  C10. \<open>FRAME_DELAY\<close> is 1000 / 30 computed in integers, 33, so each pass through the
  loop body moves the deadline by exactly 33 ms, while \<open>Initialize\<close> sets the encoder's
  time base to exactly 1/30 second: the pacing interval differs from the nominal frame
  duration of 1000/30 ms, by 1 ms every 3 frames.
\<close>

theorem frame_delay_truncated:
  assumes "Initialize env (ScreenRecorder env) = (True, s1)"
    and "Record_body env n next_frame s = Inr (next_frame', s')"
  shows "FRAME_DELAY = 33 \<and> next_frame' = next_frame + 33 \<and>
         (\<exists>cc. codec_ctx s1 = Ptr cc \<and> cc_time_base cc = (1, 30)) \<and>
         (of_int FRAME_DELAY :: rat) \<noteq> 1000 / of_int FPS \<and>
         3 * (1000 / of_int FPS) - 3 * of_int FRAME_DELAY = (1 :: rat)"
proof -
  note i = Initialize_True[OF assms(1)]
  from Record_body_Inr[OF assms(2)] have "next_frame' = next_frame + 33"
    by (simp add: FRAME_DELAY_33)
  moreover have "\<exists>cc. codec_ctx s1 = Ptr cc \<and> cc_time_base cc = (1, 30)"
    using i(3) by (simp add: FPS_def)
  moreover have "(of_int FRAME_DELAY :: rat) \<noteq> 1000 / of_int FPS \<and>
         3 * (1000 / of_int FPS) - 3 * of_int FRAME_DELAY = (1 :: rat)"
    by (simp add: FRAME_DELAY_33 FPS_def)
  ultimately show ?thesis by (simp add: FRAME_DELAY_33)
qed

lemma demo_body_runs:
  "\<not> isl (Record_body (demo_env 3) 0 1000
             (snd (Initialize (demo_env 3) (ScreenRecorder (demo_env 3)))))"
  by code_simp

theorem frame_delay_truncated_witness:
  "\<exists>s1 s'. Initialize (demo_env 3) (ScreenRecorder (demo_env 3)) = (True, s1) \<and>
     Record_body (demo_env 3) 0 1000 s1 = Inr (1033, s') \<and>
     FRAME_DELAY = 33 \<and> (\<exists>cc. codec_ctx s1 = Ptr cc \<and> cc_time_base cc = (1, 30)) \<and>
     (of_int FRAME_DELAY :: rat) \<noteq> 1000 / of_int FPS \<and>
     3 * (1000 / of_int FPS) - 3 * of_int FRAME_DELAY = (1 :: rat)"
proof -
  obtain s1 where i: "Initialize (demo_env 3) (ScreenRecorder (demo_env 3)) = (True, s1)"
    using demo_Initialize by blast
  from demo_body_runs i obtain nf s' where b: "Record_body (demo_env 3) 0 1000 s1 = Inr (nf, s')"
    by (cases "Record_body (demo_env 3) 0 1000 s1") auto
  note r = frame_delay_truncated[OF i b]
  from r have n: "nf = 1033" by simp
  show ?thesis
    by (rule exI[of _ s1], rule exI[of _ s']) (use i b r n in simp)
qed

subsection \<open>C8: the per-frame drain\<close>

lemma EncodeFrame_drain_muxes:
  "codec_ctx s = Ptr cc \<Longrightarrow> stream s = Ptr st \<Longrightarrow>
   \<exists>s'. EncodeFrame_drain env s = Inr s' \<and> enc_ready s' = [] \<and>
        trace s' = trace s @ map (\<lambda>p. WritePacket (muxed env cc st p)) (enc_ready s)"
proof (induction "enc_ready s" arbitrary: s)
  case Nil
  then have "EncodeFrame_drain env s = Inr s"
    by (subst EncodeFrame_drain.simps) (simp add: avcodec_receive_packet_def)
  with Nil(1)[symmetric] show ?case by simp
next
  case (Cons p ps)
  let ?s1 = "s\<lparr>enc_ready := ps\<rparr>"
  let ?s2 = "emit [WritePacket (muxed env cc st p)] ?s1"
  have r: "avcodec_receive_packet s = Some (p, ?s1)"
    using Cons(2)[symmetric] by (simp add: avcodec_receive_packet_def)
  have m: "mux_packet env p ?s1 = Inr ?s2"
    using Cons(3,4) by (simp add: mux_packet_def deref_def muxed_def Let_def)
  have e: "EncodeFrame_drain env s = EncodeFrame_drain env ?s2"
    by (subst EncodeFrame_drain.simps) (simp add: r m)
  have "\<exists>s'. EncodeFrame_drain env ?s2 = Inr s' \<and> enc_ready s' = [] \<and>
        trace s' = trace ?s2 @ map (\<lambda>p. WritePacket (muxed env cc st p)) (enc_ready ?s2)"
  proof (rule Cons(1))
    show "ps = enc_ready ?s2" by (simp add: emit_def)
    show "codec_ctx ?s2 = Ptr cc" using Cons(3) by (simp add: emit_def)
    show "stream ?s2 = Ptr st" using Cons(4) by (simp add: emit_def)
  qed
  then obtain s' where "EncodeFrame_drain env ?s2 = Inr s'" "enc_ready s' = []"
    "trace s' = trace ?s2 @ map (\<lambda>p. WritePacket (muxed env cc st p)) (enc_ready ?s2)" by blast
  then have "EncodeFrame_drain env s = Inr s' \<and> enc_ready s' = [] \<and>
        trace s' = trace s @ map (\<lambda>p. WritePacket (muxed env cc st p)) (enc_ready s)"
    using Cons(2)[symmetric] by (simp add: e emit_def)
  then show ?case by blast
qed

lemma written_packets_map_muxed:
  "written_packets (map (\<lambda>p. WritePacket (f p)) ps) = map f ps"
  by (induction ps) auto

text \<open>
  C8. After a frame has been submitted, \<open>EncodeFrame\<close> receives every packet the
  encoder has ready, however many there are (none, one or several), and hands each to
  the muxer rescaled from the encoder's time base to the stream's time base and tagged
  with the stream's index, in the order received; no packet is left behind.
\<close>

theorem EncodeFrame_muxes_all:
  assumes "EncodeFrame_submit env s = Inr s3"
    and "codec_ctx s = Ptr cc"
    and "stream s = Ptr st"
  shows "\<exists>s'. EncodeFrame env s = Inr s' \<and> enc_ready s' = [] \<and>
           written_packets (trace s') =
             written_packets (trace s) @
             map (\<lambda>p. (packet_rescale_ts env p (cc_time_base cc) (st_time_base st))
                         \<lparr>pkt_stream_index := st_index st\<rparr>)
                 (enc_ready s3)"
proof -
  note a = EncodeFrame_submit_Inr[OF assms(1)]
  let ?s = "emit [Acquire Packet] s3"
  have c: "codec_ctx ?s = Ptr cc" and t: "stream ?s = Ptr st"
    using a assms(2,3) by (simp_all add: emit_def unchanged_setup_def)
  from EncodeFrame_drain_muxes[OF c t] obtain s4 where
    d: "EncodeFrame_drain env ?s = Inr s4" and r: "enc_ready s4 = []"
    and tr: "trace s4 = trace ?s @ map (\<lambda>p. WritePacket (muxed env cc st p)) (enc_ready ?s)"
    by blast
  have e: "EncodeFrame env s = Inr (emit [Release Packet] s4)"
    by (simp add: EncodeFrame_def assms(1) d)
  have "written_packets (trace (emit [Release Packet] s4)) =
          written_packets (trace s) @ map (muxed env cc st) (enc_ready s3)"
    using a by (simp add: emit_def tr written_packets_append written_packets_map_muxed)
  then have "written_packets (trace (emit [Release Packet] s4)) =
             written_packets (trace s) @
             map (\<lambda>p. (packet_rescale_ts env p (cc_time_base cc) (st_time_base st))
                         \<lparr>pkt_stream_index := st_index st\<rparr>)
                 (enc_ready s3)"
    by (simp add: muxed_def)
  moreover have "enc_ready (emit [Release Packet] s4) = []" using r by (simp add: emit_def)
  ultimately show ?thesis using e by blast
qed

lemma demo_after_1:
  "codec_ctx (demo_after 1) = Ptr demo_codec"
  "stream (demo_after 1) = Ptr demo_stream"
  "written_packets (trace (demo_after 1)) = []"
  "map_sum id enc_ready (EncodeFrame_submit (demo_env 1) (demo_after 1)) =
     Inr [\<lparr>pkt_pts = 0, pkt_dts = 0, pkt_duration = 1, pkt_stream_index = 0, pkt_data = [0]\<rparr>,
          \<lparr>pkt_pts = 1, pkt_dts = 1, pkt_duration = 1, pkt_stream_index = 0, pkt_data = [0]\<rparr>]"
  by code_simp+

lemma demo_after_0:
  "codec_ctx (demo_after 0) = Ptr demo_codec"
  "stream (demo_after 0) = Ptr demo_stream"
  "written_packets (trace (demo_after 0)) = []"
  "map_sum id enc_ready (EncodeFrame_submit (demo_env 0) (demo_after 0)) = Inr []"
  by code_simp+

lemma demo_rescale_eval:
  "demo_rescale \<lparr>pkt_pts = a, pkt_dts = b, pkt_duration = c, pkt_stream_index = i, pkt_data = d\<rparr>
     (1, 30) (1, 15360) =
   \<lparr>pkt_pts = a * 512, pkt_dts = b * 512, pkt_duration = c * 512, pkt_stream_index = i,
    pkt_data = d\<rparr>"
  by (simp add: demo_rescale_def)

theorem EncodeFrame_muxes_all_witness:
  "(\<exists>s3 s'. EncodeFrame_submit (demo_env 0) (demo_after 0) = Inr s3 \<and> enc_ready s3 = [] \<and>
      EncodeFrame (demo_env 0) (demo_after 0) = Inr s' \<and> enc_ready s' = [] \<and>
      written_packets (trace s') = []) \<and>
   (\<exists>s3 s'. EncodeFrame_submit (demo_env 1) (demo_after 1) = Inr s3 \<and>
      enc_ready s3 =
        [\<lparr>pkt_pts = 0, pkt_dts = 0, pkt_duration = 1, pkt_stream_index = 0, pkt_data = [0]\<rparr>,
         \<lparr>pkt_pts = 1, pkt_dts = 1, pkt_duration = 1, pkt_stream_index = 0, pkt_data = [0]\<rparr>] \<and>
      EncodeFrame (demo_env 1) (demo_after 1) = Inr s' \<and> enc_ready s' = [] \<and>
      written_packets (trace s') =
        [\<lparr>pkt_pts = 0, pkt_dts = 0, pkt_duration = 512, pkt_stream_index = 0, pkt_data = [0]\<rparr>,
         \<lparr>pkt_pts = 512, pkt_dts = 512, pkt_duration = 512, pkt_stream_index = 0,
          pkt_data = [0]\<rparr>])"
proof (rule conjI)
  from demo_after_0(4) obtain s3 where a: "EncodeFrame_submit (demo_env 0) (demo_after 0) = Inr s3"
    and r: "enc_ready s3 = []"
    by (cases "EncodeFrame_submit (demo_env 0) (demo_after 0)") auto
  from EncodeFrame_muxes_all[OF a demo_after_0(1,2)] obtain s' where
    "EncodeFrame (demo_env 0) (demo_after 0) = Inr s'" "enc_ready s' = []"
    "written_packets (trace s') = []"
    by (auto simp: r demo_after_0(3))
  with a r show "\<exists>s3 s'. EncodeFrame_submit (demo_env 0) (demo_after 0) = Inr s3 \<and> enc_ready s3 = [] \<and>
      EncodeFrame (demo_env 0) (demo_after 0) = Inr s' \<and> enc_ready s' = [] \<and>
      written_packets (trace s') = []" by blast
next
  let ?ps = "[\<lparr>pkt_pts = 0, pkt_dts = 0, pkt_duration = 1, pkt_stream_index = 0, pkt_data = [0]\<rparr>,
         \<lparr>pkt_pts = 1, pkt_dts = 1, pkt_duration = 1, pkt_stream_index = 0, pkt_data = [0]\<rparr>]"
  from demo_after_1(4) obtain s3 where a: "EncodeFrame_submit (demo_env 1) (demo_after 1) = Inr s3"
    and r: "enc_ready s3 = ?ps"
    by (cases "EncodeFrame_submit (demo_env 1) (demo_after 1)") auto
  from EncodeFrame_muxes_all[OF a demo_after_1(1,2)] obtain s' where
    e: "EncodeFrame (demo_env 1) (demo_after 1) = Inr s'" and n: "enc_ready s' = []"
    and w: "written_packets (trace s') =
             written_packets (trace (demo_after 1)) @
             map (\<lambda>p. (packet_rescale_ts (demo_env 1) p (cc_time_base demo_codec)
                          (st_time_base demo_stream))\<lparr>pkt_stream_index := st_index demo_stream\<rparr>)
                 (enc_ready s3)"
    by blast
  have "written_packets (trace s') =
        [\<lparr>pkt_pts = 0, pkt_dts = 0, pkt_duration = 512, pkt_stream_index = 0, pkt_data = [0]\<rparr>,
         \<lparr>pkt_pts = 512, pkt_dts = 512, pkt_duration = 512, pkt_stream_index = 0,
          pkt_data = [0]\<rparr>]"
    unfolding w r demo_after_1(3)
    by (simp add: demo_env_def demo_codec_def demo_stream_def demo_rescale_eval)
  with a r e n show "\<exists>s3 s'. EncodeFrame_submit (demo_env 1) (demo_after 1) = Inr s3 \<and>
      enc_ready s3 = ?ps \<and>
      EncodeFrame (demo_env 1) (demo_after 1) = Inr s' \<and> enc_ready s' = [] \<and>
      written_packets (trace s') =
        [\<lparr>pkt_pts = 0, pkt_dts = 0, pkt_duration = 512, pkt_stream_index = 0, pkt_data = [0]\<rparr>,
         \<lparr>pkt_pts = 512, pkt_dts = 512, pkt_duration = 512, pkt_stream_index = 0,
          pkt_data = [0]\<rparr>]" by blast
qed

subsection \<open>C2: the final flush\<close>

lemma Record_finish_writes_raw:
  assumes "Record_finish env s = Inr s'" and "codec_ctx s = Ptr cc"
  shows "written_packets (trace s') =
           written_packets (trace s) @ enc_ready s @
           (if cc_opened cc then encoder_output env (enc_sent s) None else [])"
  using Record_finish_Inr[OF assms(1)] assms(2)
  by (auto simp: written_packets_append written_packets_map)

text \<open>
  C2. The flush after the loop does not take the per-frame path: it hands each packet
  to the muxer as received. In the run below the encoder holds one packet back until
  the flush; it reaches the muxer with timestamp 2 and duration 1, in the encoder's
  time base of 1/30, where lines 159-160 would have made them 1024 and 512 in the
  stream's time base of 1/15360.
\<close>

theorem flush_packets_not_muxed:
  "\<exists>s. main (demo_env 3) = Some (Inr (0, s)) \<and>
       written_packets (trace s) =
         [\<lparr>pkt_pts = 0, pkt_dts = 0, pkt_duration = 512, pkt_stream_index = 0, pkt_data = [0]\<rparr>,
          \<lparr>pkt_pts = 512, pkt_dts = 512, pkt_duration = 512, pkt_stream_index = 0,
           pkt_data = [1]\<rparr>,
          \<lparr>pkt_pts = 2, pkt_dts = 2, pkt_duration = 1, pkt_stream_index = 0, pkt_data = [2]\<rparr>] \<and>
       muxed (demo_env 3) demo_codec demo_stream
         \<lparr>pkt_pts = 2, pkt_dts = 2, pkt_duration = 1, pkt_stream_index = 0, pkt_data = [2]\<rparr> =
         \<lparr>pkt_pts = 1024, pkt_dts = 1024, pkt_duration = 512, pkt_stream_index = 0,
          pkt_data = [2]\<rparr>"
proof -
  from completed_run_Some[OF demo_run_3] obtain s where m: "main (demo_env 3) = Some (Inr (0, s))"
    and w: "written_packets (trace s) =
         [\<lparr>pkt_pts = 0, pkt_dts = 0, pkt_duration = 512, pkt_stream_index = 0, pkt_data = [0]\<rparr>,
          \<lparr>pkt_pts = 512, pkt_dts = 512, pkt_duration = 512, pkt_stream_index = 0,
           pkt_data = [1]\<rparr>,
          \<lparr>pkt_pts = 2, pkt_dts = 2, pkt_duration = 1, pkt_stream_index = 0, pkt_data = [2]\<rparr>]"
    by auto
  have x: "muxed (demo_env 3) demo_codec demo_stream
         \<lparr>pkt_pts = 2, pkt_dts = 2, pkt_duration = 1, pkt_stream_index = 0, pkt_data = [2]\<rparr> =
         \<lparr>pkt_pts = 1024, pkt_dts = 1024, pkt_duration = 512, pkt_stream_index = 0,
          pkt_data = [2]\<rparr>"
    by (simp add: muxed_def demo_env_def demo_codec_def demo_stream_def demo_rescale_eval)
  show ?thesis
    by (rule exI[of _ s]) (simp only: m w x simp_thms)
qed

subsection \<open>C4: initialization failures\<close>

text \<open>
  C4. \<open>Initialize\<close> reports success although \<open>avcodec_open2\<close> has failed: the loop
  runs, a frame is captured and submitted to the unopened encoder, and header and
  trailer are written around no packet at all. It reports success as well when
  the screen metrics are 0.
\<close>

theorem codec_open_failure_not_reported:
  "fst (Initialize ((demo_env 1)\<lparr>codec_open_ok := False\<rparr>)
                   (ScreenRecorder ((demo_env 1)\<lparr>codec_open_ok := False\<rparr>))) \<and>
   completed_run ((demo_env 1)\<lparr>codec_open_ok := False\<rparr>) =
     Some (0, [Acquire FormatContext, Acquire CodecContext, Acquire ScalerContext,
       Acquire EncoderFrame, Acquire OutputFile, WriteHeader,
       Acquire ScreenDC, Acquire MemDC, Acquire Bitmap, DrawOp SelectObject,
       DrawOp BitBlt, Acquire Brush, DrawOp FrameRect, Release Brush,
       Acquire IconColorBitmap, Acquire IconMaskBitmap, DrawOp DrawIconEx,
       Release IconColorBitmap, Release IconMaskBitmap, GetDIBits 8,
       Release Bitmap, Release MemDC, Release ScreenDC, SwsScale,
       SendFrame (Some 0), Acquire Packet, Release Packet,
       SleepUntil 1033 1050, Acquire Packet, SendFrame None, Release Packet,
       WriteTrailer, Release CodecContext, Release FormatContext,
       Release ScalerContext, Release EncoderFrame]) \<and>
   fst (Initialize ((demo_env 1)\<lparr>screen_cx := 0, screen_cy := 0\<rparr>)
                   (ScreenRecorder ((demo_env 1)\<lparr>screen_cx := 0, screen_cy := 0\<rparr>)))"
  by code_simp

subsection \<open>C5: the capture buffer\<close>

lemma int_mul_fits:
  assumes "- 2147483648 \<le> sint a * sint b" "sint a * sint b < 2147483648"
  shows "int_mul a b = Inr (a * b)"
  using assms by (simp add: int_mul_def)

lemma CaptureFrame_reads:
  assumes "0 \<le> sint (width s)" and "0 \<le> sint (height s)"
    and "sint (width s) * sint (height s) * 4 < 2 ^ 31"
  shows "\<exists>s'. CaptureFrame env n s = Inr s'"
proof -
  define p where "p = sint (width s) * sint (height s)"
  have nn: "0 \<le> p" unfolding p_def using assms(1,2) by (rule mult_nonneg_nonneg)
  have p4: "p * 4 < 2147483648" using assms(3) by (simp add: p_def)
  have lt: "p < 2147483648" using nn p4 by linarith
  have a: "int_mul (width s) (height s) = Inr (width s * height s)"
  proof (rule int_mul_fits)
    show "- 2147483648 \<le> sint (width s) * sint (height s)"
      using nn unfolding p_def by linarith
    show "sint (width s) * sint (height s) < 2147483648"
      using lt unfolding p_def .
  qed
  have sp: "sint (width s * height s) = p"
    unfolding p_def by (rule int_mul_Inr[OF a])
  have b: "int_mul (width s * height s) 4 = Inr (width s * height s * 4)"
    by (rule int_mul_fits) (use nn p4 in \<open>simp_all add: sp\<close>)
  have sb: "sint (width s * height s * 4) = p * 4"
    using int_mul_Inr[OF b] by (simp add: sp)
  have z: "size_t_of_int (width s * height s * 4) = p * 4"
    using nn by (simp add: size_t_of_int_nonneg sb)
  have "\<exists>buf. resize (p * 4) (captureBuffer s) = Inr buf"
    using p4 by (simp add: resize_def vector_max_size_def)
  then have "\<exists>buf. (if int (length (captureBuffer s)) < size_t_of_int (width s * height s * 4)
             then resize (size_t_of_int (width s * height s * 4)) (captureBuffer s)
             else Inr (captureBuffer s)) = Inr buf"
    by (simp add: z)
  then obtain buf where g: "(if int (length (captureBuffer s)) < size_t_of_int (width s * height s * 4)
             then resize (size_t_of_int (width s * height s * 4)) (captureBuffer s)
             else Inr (captureBuffer s)) = Inr buf" ..
  have "int (length buf) = max (int (length (captureBuffer s))) (p * 4)"
    using grown_buffer[OF g] by (simp only: sb)
  moreover have "int (dib_bytes (width s) (height s)) \<le> max 0 (p * 4)"
    using dib_bytes_le[of "width s" "height s"] by (simp only: p_def)
  ultimately have k: "\<not> length buf < dib_bytes (width s) (height s)" using nn by linarith
  show ?thesis
    by (simp add: CaptureFrame_unfold a b g k)
qed

text \<open>
  C5. \<open>CaptureFrame\<close> never reads pixels past the end of the capture buffer. Whenever
  it performs the read, the buffer has before been grown to exactly
  \<open>width * height * 4\<close> bytes if it was shorter and left as it was otherwise, and the
  bytes read fit into it; over a whole pass through the loop body the buffer's size
  becomes the larger of its old size and \<open>width * height * 4\<close>, so it never shrinks.
  The read is performed for every screen whose \<open>width * height * 4\<close> fits an \<open>int\<close>.
\<close>

theorem capture_buffer_grown:
  "CaptureFrame env n s \<noteq> Inl BufferOverrun \<and>
   (\<forall>s'. CaptureFrame env n s = Inr s' \<longrightarrow>
      int (length (captureBuffer s')) =
        max (int (length (captureBuffer s))) (sint (width s) * sint (height s) * 4) \<and>
      dib_bytes (width s) (height s) \<le> length (captureBuffer s')) \<and>
   (\<forall>next_frame next_frame' s''.
      Record_body env n next_frame s = Inr (next_frame', s'') \<longrightarrow>
      int (length (captureBuffer s'')) =
        max (int (length (captureBuffer s))) (sint (width s) * sint (height s) * 4)) \<and>
   (0 \<le> sint (width s) \<and> 0 \<le> sint (height s) \<and>
    sint (width s) * sint (height s) * 4 < 2 ^ 31 \<longrightarrow>
      (\<exists>s'. CaptureFrame env n s = Inr s'))"
proof (intro conjI allI impI)
  show "CaptureFrame env n s \<noteq> Inl BufferOverrun" by (rule CaptureFrame_no_overrun)
next
  fix s' assume c: "CaptureFrame env n s = Inr s'"
  show "int (length (captureBuffer s')) =
        max (int (length (captureBuffer s))) (sint (width s) * sint (height s) * 4)"
    by (rule CaptureFrame_buffer(1)[OF c])
  show "dib_bytes (width s) (height s) \<le> length (captureBuffer s')"
    by (rule CaptureFrame_buffer(2)[OF c])
next
  fix next_frame next_frame' s''
  assume "Record_body env n next_frame s = Inr (next_frame', s'')"
  from Record_body_Inr[OF this]
  show "int (length (captureBuffer s'')) =
        max (int (length (captureBuffer s))) (sint (width s) * sint (height s) * 4)"
    by blast
next
  assume "0 \<le> sint (width s) \<and> 0 \<le> sint (height s) \<and>
    sint (width s) * sint (height s) * 4 < 2 ^ 31"
  then show "\<exists>s'. CaptureFrame env n s = Inr s'"
    by (intro CaptureFrame_reads) simp_all
qed

lemma demo_after_dims:
  "width (demo_after 0) = 2" "height (demo_after 0) = 1" "captureBuffer (demo_after 0) = []"
  "width (demo_after 1) = 2" "height (demo_after 1) = 1"
  "length (captureBuffer (demo_after 1)) = 8"
  by code_simp+

theorem capture_buffer_grown_witness:
  "(\<exists>s'. CaptureFrame (demo_env 0) 0 (demo_after 0) = Inr s' \<and>
         length (captureBuffer (demo_after 0)) = 0 \<and> length (captureBuffer s') = 8 \<and>
         dib_bytes (width (demo_after 0)) (height (demo_after 0)) \<le> 8) \<and>
   (\<exists>s'. CaptureFrame (demo_env 1) 1 (demo_after 1) = Inr s' \<and>
         length (captureBuffer (demo_after 1)) = 8 \<and> length (captureBuffer s') = 8)"
proof (rule conjI)
  note t = capture_buffer_grown[of "demo_env 0" 0 "demo_after 0"]
  have h: "0 \<le> sint (width (demo_after 0)) \<and> 0 \<le> sint (height (demo_after 0)) \<and>
    sint (width (demo_after 0)) * sint (height (demo_after 0)) * 4 < 2 ^ 31"
    unfolding demo_after_dims by simp
  with t obtain s' where c: "CaptureFrame (demo_env 0) 0 (demo_after 0) = Inr s'" by blast
  with t have "int (length (captureBuffer s')) =
        max (int (length (captureBuffer (demo_after 0))))
            (sint (width (demo_after 0)) * sint (height (demo_after 0)) * 4) \<and>
      dib_bytes (width (demo_after 0)) (height (demo_after 0)) \<le> length (captureBuffer s')"
    by blast
  then have "length (captureBuffer s') = 8 \<and>
      dib_bytes (width (demo_after 0)) (height (demo_after 0)) \<le> 8"
    unfolding demo_after_dims by simp
  with c show "\<exists>s'. CaptureFrame (demo_env 0) 0 (demo_after 0) = Inr s' \<and>
         length (captureBuffer (demo_after 0)) = 0 \<and> length (captureBuffer s') = 8 \<and>
         dib_bytes (width (demo_after 0)) (height (demo_after 0)) \<le> 8"
    unfolding demo_after_dims by simp
next
  note t = capture_buffer_grown[of "demo_env 1" 1 "demo_after 1"]
  have h: "0 \<le> sint (width (demo_after 1)) \<and> 0 \<le> sint (height (demo_after 1)) \<and>
    sint (width (demo_after 1)) * sint (height (demo_after 1)) * 4 < 2 ^ 31"
    unfolding demo_after_dims by simp
  with t obtain s' where c: "CaptureFrame (demo_env 1) 1 (demo_after 1) = Inr s'" by blast
  with t have "int (length (captureBuffer s')) =
        max (int (length (captureBuffer (demo_after 1))))
            (sint (width (demo_after 1)) * sint (height (demo_after 1)) * 4)"
    by blast
  then have "length (captureBuffer s') = 8"
    unfolding demo_after_dims by simp
  with c show "\<exists>s'. CaptureFrame (demo_env 1) 1 (demo_after 1) = Inr s' \<and>
         length (captureBuffer (demo_after 1)) = 8 \<and> length (captureBuffer s') = 8"
    unfolding demo_after_dims by simp
qed

subsection \<open>C7: the lifetime of resources\<close>

lemma count_list_map_WritePacket:
  "count_list (map WritePacket ps) (Acquire r) = 0"
  "count_list (map WritePacket ps) (Release r) = 0"
  by (induction ps) auto

lemma cursor_frames_le: "cursor_frames env n k \<le> k"
proof (induction k arbitrary: n)
  case 0
  show ?case by simp
next
  case (Suc k)
  from Suc[of "Suc n"] show ?case by simp
qed

lemma body_events_counts:
  "count_list (body_events env n nf s ps) (Acquire r) = loop_uses env n 1 r"
  "count_list (body_events env n nf s ps) (Release r) = loop_uses env n 1 r"
  by (cases r; simp add: body_events_def capture_events_def cursor_events_def loop_uses_def
        count_list_map_WritePacket)+

lemma loop_uses_Suc: "loop_uses env n (Suc k) r = loop_uses env n 1 r + loop_uses env (Suc n) k r"
  by (simp add: loop_uses_def)

lemma iterations_counts:
  "iterations env n k nf s = Inr (nf', s') \<Longrightarrow>
   created (trace s') r = created (trace s) r + loop_uses env n k r \<and>
   released (trace s') r = released (trace s) r + loop_uses env n k r"
proof (induction k arbitrary: n nf s)
  case 0
  then show ?case by (simp add: loop_uses_def)
next
  case (Suc k)
  from Suc.prems obtain nf1 s1 where b: "Record_body env n nf s = Inr (nf1, s1)"
    and it: "iterations env (Suc n) k nf1 s1 = Inr (nf', s')"
    by (auto split: sum.splits)
  from Record_body_Inr[OF b] obtain ps where tr: "trace s1 = trace s @ body_events env n nf s ps"
    by blast
  have "created (trace s1) r = created (trace s) r + loop_uses env n 1 r"
    "released (trace s1) r = released (trace s) r + loop_uses env n 1 r"
    by (simp_all only: created_def released_def tr count_list_append body_events_counts)
  with Suc.IH[OF it] show ?case by (simp only: loop_uses_Suc add.assoc)
qed

lemma main_recorded:
  assumes "main env = Some (Inr (c, s))" and "fst (Initialize env (ScreenRecorder env))"
  obtains s1 k nf s2 s3 where "Initialize env (ScreenRecorder env) = (True, s1)"
      "iterations env 0 k (clock s1) s1 = Inr (nf, s2)"
      "Record_finish env s2 = Inr s3" "destructor s3 = Inr s"
  using main_cases[OF assms(1)] assms(2) by auto

lemma iterations_frame:
  "iterations env n k nf s = Inr (nf', s') \<Longrightarrow> \<exists>fr. frame s = Ptr fr \<Longrightarrow>
   \<exists>fr. frame s' = Ptr fr"
proof (induction k arbitrary: n nf s)
  case 0
  then show ?case by simp
next
  case (Suc k)
  from Suc.prems(1) obtain nf1 s1 where b: "Record_body env n nf s = Inr (nf1, s1)"
    and it: "iterations env (Suc n) k nf1 s1 = Inr (nf', s')"
    by (auto split: sum.splits)
  from Record_body_Inr[OF b] have "\<exists>fr. frame s1 = Ptr fr" by blast
  with it show ?case by (rule Suc.IH)
qed

lemma count_list_init:
  "count_list [Acquire FormatContext, Acquire CodecContext, Acquire ScalerContext,
               Acquire EncoderFrame, Acquire OutputFile, WriteHeader] (Acquire r) =
     (if r \<in> {FormatContext, CodecContext, ScalerContext, EncoderFrame, OutputFile}
      then 1 else 0)"
  "count_list [Acquire FormatContext, Acquire CodecContext, Acquire ScalerContext,
               Acquire EncoderFrame, Acquire OutputFile, WriteHeader] (Release r) = 0"
  by (cases r; simp)+

lemma count_list_finish:
  "count_list ([Acquire Packet, SendFrame None] @ map WritePacket ps @
               [Release Packet, WriteTrailer]) (Acquire r) = (if r = Packet then 1 else 0)"
  "count_list ([Acquire Packet, SendFrame None] @ map WritePacket ps @
               [Release Packet, WriteTrailer]) (Release r) = (if r = Packet then 1 else 0)"
  by (auto simp: count_list_map_WritePacket)

lemma count_list_destructor:
  "count_list [Release CodecContext, Release FormatContext, Release ScalerContext,
               Release EncoderFrame] (Acquire r) = 0"
  "count_list [Release CodecContext, Release FormatContext, Release ScalerContext,
               Release EncoderFrame] (Release r) =
     (if r \<in> {FormatContext, CodecContext, ScalerContext, EncoderFrame} then 1 else 0)"
  by (cases r; simp)+

lemma run_counts:
  assumes "main env = Some (Inr (c, s))" and "fst (Initialize env (ScreenRecorder env))"
  shows "created (trace s) r =
           (if r \<in> {FormatContext, CodecContext, ScalerContext, EncoderFrame, OutputFile}
            then 1 else 0) +
           loop_uses env 0 (frames_captured (trace s)) r + (if r = Packet then 1 else 0)"
    and "released (trace s) r =
           (if r \<in> {FormatContext, CodecContext, ScalerContext, EncoderFrame} then 1 else 0) +
           loop_uses env 0 (frames_captured (trace s)) r + (if r = Packet then 1 else 0)"
proof -
  from assms obtain s1 k nf s2 s3 where i: "Initialize env (ScreenRecorder env) = (True, s1)"
    and it: "iterations env 0 k (clock s1) s1 = Inr (nf, s2)"
    and f: "Record_finish env s2 = Inr s3" and s: "destructor s3 = Inr s"
    by (rule main_recorded)
  note init = Initialize_True[OF i]
  note loop = iterations_Inr[OF it]
  note fin = Record_finish_Inr[OF f]
  from fin obtain ps where t3: "trace s3 = trace s2 @ [Acquire Packet, SendFrame None] @
      map WritePacket ps @ [Release Packet, WriteTrailer]" by blast
  have ptrs: "codec_ctx s3 \<noteq> Nullptr \<and> fmt_ctx s3 \<noteq> Nullptr \<and> sws_ctx s3 \<noteq> Nullptr"
    using init(3,5) loop fin by (auto simp: unchanged_setup_def)
  have "\<exists>fr. frame s2 = Ptr fr" using it init(5) by (rule iterations_frame[OF _ conjunct1])
  with fin have fr: "frame s3 \<noteq> Nullptr" by auto
  have d: "destructor_events s3 =
     [Release CodecContext, Release FormatContext, Release ScalerContext, Release EncoderFrame]"
    using ptrs fr by (simp add: destructor_events_def)
  have t: "trace s = trace s2 @ ([Acquire Packet, SendFrame None] @
      map WritePacket ps @ [Release Packet, WriteTrailer]) @
     [Release CodecContext, Release FormatContext, Release ScalerContext, Release EncoderFrame]"
    by (simp add: destructor_Inr[OF s] t3 d)
  have k: "frames_captured (trace s) = k"
    using iterations_frames_captured[OF it]
    by (simp add: t init(1) frames_captured_append frames_captured_map)
  note c2 = iterations_counts[OF it, of r]
  have c1: "created (trace s1) r =
      (if r \<in> {FormatContext, CodecContext, ScalerContext, EncoderFrame, OutputFile}
       then 1 else 0)" "released (trace s1) r = 0"
    by (simp_all only: created_def released_def init(1) count_list_init)
  have "created (trace s) r =
           (if r \<in> {FormatContext, CodecContext, ScalerContext, EncoderFrame, OutputFile}
            then 1 else 0) +
           loop_uses env 0 k r + (if r = Packet then 1 else 0)"
    using c2 c1
    by (simp only: created_def t count_list_append count_list_finish count_list_destructor)
       (simp add: released_def count_list_map_WritePacket)
  then show "created (trace s) r =
           (if r \<in> {FormatContext, CodecContext, ScalerContext, EncoderFrame, OutputFile}
            then 1 else 0) +
           loop_uses env 0 (frames_captured (trace s)) r + (if r = Packet then 1 else 0)"
    by (simp only: k)
  have "released (trace s) r =
           (if r \<in> {FormatContext, CodecContext, ScalerContext, EncoderFrame} then 1 else 0) +
           loop_uses env 0 k r + (if r = Packet then 1 else 0)"
    using c2 c1
    by (simp only: released_def t count_list_append count_list_finish count_list_destructor)
       (simp add: created_def count_list_map_WritePacket)
  then show "released (trace s) r =
           (if r \<in> {FormatContext, CodecContext, ScalerContext, EncoderFrame} then 1 else 0) +
           loop_uses env 0 (frames_captured (trace s)) r + (if r = Packet then 1 else 0)"
    by (simp only: k)
qed

lemma body_events_iteration:
  "body_events env n nf s ps =
     iteration_events env n (dib_bytes (width s) (height s)) (pts_counter s) ps
       (nf + FRAME_DELAY) (clock s + int (work_ms env n))"
  by (simp add: body_events_def iteration_events_def)

lemma iteration_events_balanced:
  "created (iteration_events env n k p ps d now) r = released (iteration_events env n k p ps d now) r"
  by (cases r; simp add: iteration_events_def capture_events_def cursor_events_def
        created_def released_def count_list_map_WritePacket)

lemma iterations_bodies:
  "iterations env n k nf s = Inr (nf', s') \<Longrightarrow>
   \<exists>bodies. length bodies = k \<and>
     (\<forall>i<k. \<exists>b p ps d now. bodies ! i = iteration_events env (n + i) b p ps d now) \<and>
     trace s' = trace s @ concat bodies"
proof (induction k arbitrary: n nf s)
  case 0
  then show ?case by simp
next
  case (Suc k)
  from Suc.prems obtain nf1 s1 where b: "Record_body env n nf s = Inr (nf1, s1)"
    and it: "iterations env (Suc n) k nf1 s1 = Inr (nf', s')"
    by (auto split: sum.splits)
  from Record_body_Inr[OF b] obtain ps where tr: "trace s1 = trace s @ body_events env n nf s ps"
    by blast
  from Suc.IH[OF it] obtain bodies where l: "length bodies = k"
    and sh: "\<forall>i<k. \<exists>b p ps d now. bodies ! i = iteration_events env (Suc n + i) b p ps d now"
    and t: "trace s' = trace s1 @ concat bodies" by blast
  let ?bs = "body_events env n nf s ps # bodies"
  have "length ?bs = Suc k" using l by simp
  moreover have "\<forall>i<Suc k. \<exists>b p ps d now. ?bs ! i = iteration_events env (n + i) b p ps d now"
  proof (intro allI impI)
    fix i assume i: "i < Suc k"
    show "\<exists>b p ps d now. ?bs ! i = iteration_events env (n + i) b p ps d now"
    proof (cases i)
      case 0
      then show ?thesis by (simp add: body_events_iteration) blast
    next
      case (Suc j)
      with i have "j < k" by simp
      with sh have "\<exists>b p ps d now. bodies ! j = iteration_events env (Suc n + j) b p ps d now"
        by blast
      then show ?thesis by (simp add: Suc)
    qed
  qed
  moreover have "trace s' = trace s @ concat ?bs" by (simp add: t tr)
  ultimately show ?case by blast
qed

lemma run_shape:
  assumes "main env = Some (Inr (c, s))" and "fst (Initialize env (ScreenRecorder env))"
  shows "\<exists>bodies ps s3.
           length bodies = frames_captured (trace s) \<and>
           (\<forall>i<length bodies. \<exists>b p ps' d now. bodies ! i = iteration_events env i b p ps' d now) \<and>
           trace (snd (Initialize env (ScreenRecorder env))) = startup_events \<and>
           destructor s3 = Inr s \<and>
           trace s3 = startup_events @ concat bodies @ flush_events ps \<and>
           trace s = trace s3 @ exit_events"
proof -
  from assms obtain s1 k nf s2 s3 where i: "Initialize env (ScreenRecorder env) = (True, s1)"
    and it: "iterations env 0 k (clock s1) s1 = Inr (nf, s2)"
    and f: "Record_finish env s2 = Inr s3" and s: "destructor s3 = Inr s"
    by (rule main_recorded)
  note init = Initialize_True[OF i]
  note loop = iterations_Inr[OF it]
  note fin = Record_finish_Inr[OF f]
  from fin obtain ps where t3: "trace s3 = trace s2 @ flush_events ps"
    unfolding flush_events_def by blast
  from iterations_bodies[OF it] obtain bodies where l: "length bodies = k"
    and sh: "\<forall>i<k. \<exists>b p ps d now. bodies ! i = iteration_events env i b p ps d now"
    and t2: "trace s2 = trace s1 @ concat bodies" by auto
  have ptrs: "codec_ctx s3 \<noteq> Nullptr \<and> fmt_ctx s3 \<noteq> Nullptr \<and> sws_ctx s3 \<noteq> Nullptr"
    using init(3,5) loop fin by (auto simp: unchanged_setup_def)
  have "\<exists>fr. frame s2 = Ptr fr" using it init(5) by (rule iterations_frame[OF _ conjunct1])
  with fin have fr: "frame s3 \<noteq> Nullptr" by auto
  have d: "destructor_events s3 = exit_events"
    using ptrs fr by (simp add: destructor_events_def exit_events_def)
  have t: "trace s = trace s3 @ exit_events"
    by (simp add: destructor_Inr[OF s] d)
  have st: "trace s1 = startup_events" by (simp add: init(1) startup_events_def)
  have t3': "trace s3 = startup_events @ concat bodies @ flush_events ps"
    by (simp add: t3 t2 st)
  have k: "frames_captured (trace s) = k"
    using iterations_frames_captured[OF it]
    by (simp add: t t3 st flush_events_def exit_events_def startup_events_def
          frames_captured_append frames_captured_map)
  have a: "length bodies = frames_captured (trace s)" by (simp add: l k)
  have b: "\<forall>i<length bodies. \<exists>b p ps' d now. bodies ! i = iteration_events env i b p ps' d now"
    using sh l by simp
  have c: "trace (snd (Initialize env (ScreenRecorder env))) = startup_events"
    by (simp add: i st)
  from a b c s t3' t show ?thesis by blast
qed

text \<open>
  C7 as stated fails: in a run of three frames, three bitmaps are created and destroyed,
  and four packets.
\<close>

theorem resource_lifecycle_counterexample:
  "\<exists>s. main (demo_env 3) = Some (Inr (0, s)) \<and> frames_captured (trace s) = 3 \<and>
       created (trace s) Bitmap = 3 \<and> released (trace s) Bitmap = 3 \<and>
       created (trace s) Packet = 4 \<and> released (trace s) Packet = 4 \<and>
       \<not> lifecycle_once (trace s) Bitmap"
proof -
  from completed_run_Some[OF demo_run_3] obtain s where m: "main (demo_env 3) = Some (Inr (0, s))"
    and t: "frames_captured (trace s) = 3 \<and>
       created (trace s) Bitmap = 3 \<and> released (trace s) Bitmap = 3 \<and>
       created (trace s) Packet = 4 \<and> released (trace s) Packet = 4"
    by (auto simp: created_def released_def)
  then have "\<not> lifecycle_once (trace s) Bitmap" by (simp add: lifecycle_once_def)
  with m t show ?thesis by blast
qed

text \<open>
  C7, amended. The trace of a completed recording of N frames is: the events of
  \<open>Initialize\<close>, in which the format context, the codec context, the scaler context and
  the encoder frame are created; then the events of the N passes through the loop
  body, one after the other; then the flush and the trailer; then, from the
  destructor, the release of the four contexts. Each of the four is created once and
  released once in the whole trace, so none is created or released in between. The
  loop does create and destroy resources in every iteration: a screen DC, a memory DC,
  a bitmap and a brush per captured frame, the two cursor bitmaps in every frame in
  which the cursor is drawn, and a packet per frame and one more for the flush; within
  each iteration every resource is released as often as it is created.
\<close>

theorem resource_lifecycle:
  assumes "main env = Some (Inr (c, s))"
    and "fst (Initialize env (ScreenRecorder env))"
    and "frames_captured (trace s) = N"
  shows "(\<exists>bodies ps s3.
            length bodies = N \<and>
            (\<forall>i<N. (\<exists>b p ps' d now. bodies ! i = iteration_events env i b p ps' d now) \<and>
                    (\<forall>r. created (bodies ! i) r = released (bodies ! i) r)) \<and>
            trace (snd (Initialize env (ScreenRecorder env))) = startup_events \<and>
            destructor s3 = Inr s \<and>
            trace s3 = startup_events @ concat bodies @ flush_events ps \<and>
            trace s = trace s3 @ exit_events) \<and>
         (\<forall>r \<in> {FormatContext, CodecContext, ScalerContext, EncoderFrame}.
            lifecycle_once (trace s) r) \<and>
         (\<forall>r \<in> {ScreenDC, MemDC, Bitmap, Brush}.
            created (trace s) r = N \<and> released (trace s) r = N) \<and>
         created (trace s) Packet = N + 1 \<and> released (trace s) Packet = N + 1 \<and>
         (\<forall>r \<in> {IconColorBitmap, IconMaskBitmap}.
            created (trace s) r = cursor_frames env 0 N \<and>
            released (trace s) r = cursor_frames env 0 N \<and> cursor_frames env 0 N \<le> N)"
proof (rule conjI)
  from run_shape[OF assms(1,2)] obtain bodies ps s3 where
    a: "length bodies = N"
    and b: "\<forall>i<N. \<exists>b p ps' d now. bodies ! i = iteration_events env i b p ps' d now"
    and r: "trace (snd (Initialize env (ScreenRecorder env))) = startup_events"
      "destructor s3 = Inr s"
      "trace s3 = startup_events @ concat bodies @ flush_events ps"
      "trace s = trace s3 @ exit_events"
    unfolding assms(3) by blast
  have "\<forall>i<N. (\<exists>b p ps' d now. bodies ! i = iteration_events env i b p ps' d now) \<and>
                    (\<forall>r. created (bodies ! i) r = released (bodies ! i) r)"
  proof (intro allI impI)
    fix i assume "i < N"
    with b obtain k p ps' d now where e: "bodies ! i = iteration_events env i k p ps' d now"
      by blast
    have "\<forall>r. created (bodies ! i) r = released (bodies ! i) r"
      unfolding e by (intro allI iteration_events_balanced)
    with e show "(\<exists>b p ps' d now. bodies ! i = iteration_events env i b p ps' d now) \<and>
                    (\<forall>r. created (bodies ! i) r = released (bodies ! i) r)" by blast
  qed
  with a r show "\<exists>bodies ps s3.
            length bodies = N \<and>
            (\<forall>i<N. (\<exists>b p ps' d now. bodies ! i = iteration_events env i b p ps' d now) \<and>
                    (\<forall>r. created (bodies ! i) r = released (bodies ! i) r)) \<and>
            trace (snd (Initialize env (ScreenRecorder env))) = startup_events \<and>
            destructor s3 = Inr s \<and>
            trace s3 = startup_events @ concat bodies @ flush_events ps \<and>
            trace s = trace s3 @ exit_events" by blast
next
  note rc = run_counts[OF assms(1,2), unfolded assms(3)]
  show "(\<forall>r \<in> {FormatContext, CodecContext, ScalerContext, EncoderFrame}.
            lifecycle_once (trace s) r) \<and>
         (\<forall>r \<in> {ScreenDC, MemDC, Bitmap, Brush}.
            created (trace s) r = N \<and> released (trace s) r = N) \<and>
         created (trace s) Packet = N + 1 \<and> released (trace s) Packet = N + 1 \<and>
         (\<forall>r \<in> {IconColorBitmap, IconMaskBitmap}.
            created (trace s) r = cursor_frames env 0 N \<and>
            released (trace s) r = cursor_frames env 0 N \<and> cursor_frames env 0 N \<le> N)"
    by (simp add: rc lifecycle_once_def loop_uses_def cursor_frames_le)
qed

lemma demo_initialized: "fst (Initialize (demo_env k) (ScreenRecorder (demo_env k)))"
  by (simp add: demo_Initialize)

theorem resource_lifecycle_witness:
  "\<exists>s bodies ps s3. main (demo_env 3) = Some (Inr (0, s)) \<and>
       fst (Initialize (demo_env 3) (ScreenRecorder (demo_env 3))) \<and>
       frames_captured (trace s) = 3 \<and>
       length bodies = 3 \<and>
       trace (snd (Initialize (demo_env 3) (ScreenRecorder (demo_env 3)))) = startup_events \<and>
       destructor s3 = Inr s \<and>
       trace s3 = startup_events @ concat bodies @ flush_events ps \<and>
       trace s = trace s3 @ exit_events \<and>
       lifecycle_once (trace s) CodecContext \<and> lifecycle_once (trace s) EncoderFrame \<and>
       created (trace s) Bitmap = 3 \<and> released (trace s) Bitmap = 3 \<and>
       created (trace s) Packet = 4 \<and> released (trace s) Packet = 4 \<and>
       created (trace s) IconMaskBitmap = released (trace s) IconMaskBitmap"
proof -
  from completed_run_Some[OF demo_run_3] obtain s where m: "main (demo_env 3) = Some (Inr (0, s))"
    and f: "frames_captured (trace s) = 3"
    by auto
  note r = resource_lifecycle[OF m demo_initialized f]
  from r obtain bodies ps s3 where sh: "length bodies = 3"
      "trace (snd (Initialize (demo_env 3) (ScreenRecorder (demo_env 3)))) = startup_events"
      "destructor s3 = Inr s"
      "trace s3 = startup_events @ concat bodies @ flush_events ps"
      "trace s = trace s3 @ exit_events" by blast
  from r have cnt: "lifecycle_once (trace s) CodecContext \<and> lifecycle_once (trace s) EncoderFrame \<and>
       created (trace s) Bitmap = 3 \<and> released (trace s) Bitmap = 3 \<and>
       created (trace s) Packet = 4 \<and> released (trace s) Packet = 4 \<and>
       created (trace s) IconMaskBitmap = released (trace s) IconMaskBitmap" by simp
  show ?thesis
    apply (rule exI[of _ s], rule exI[of _ bodies], rule exI[of _ ps], rule exI[of _ s3])
    using m f sh cnt demo_initialized by simp
qed

end
